theory Spec2Isabelle
  imports Main
begin

section \<open>Errors and change identity\<close>

text \<open>
  The error kinds of the \<^verbatim>\<open>sql\<close> package that the analysed functions raise or
  compare against, and \<^verbatim>\<open>io.EOF\<close>. Every other error is \<open>ErrOther\<close>.
\<close>

datatype error =
    ErrColumnCountMismatch
  | ErrColumnNotFound string
  | ErrTableColumnNotFound string string
  | ErrValidationResolved
  | ErrFunctionNotFound string
  | ErrInvalidChildrenNumber nat nat
  | ErrTriggersNotSupported string
  | EOF
  | ErrOther string

text \<open>
  \<^verbatim>\<open>sql.TreeIdentity\<close> is a Go \<^verbatim>\<open>bool\<close> with the constants \<^verbatim>\<open>SameTree\<close> (true)
  and \<^verbatim>\<open>NewTree\<close> (false); the source combines two identities with \<^verbatim>\<open>&&\<close>
  (\<open>andTree\<close>) and tests one with \<^verbatim>\<open>if same\<close>.
\<close>

datatype TreeIdentity = SameTree | NewTree

fun andTree :: "TreeIdentity \<Rightarrow> TreeIdentity \<Rightarrow> TreeIdentity" where
  "andTree SameTree SameTree = SameTree"
| "andTree _ _ = NewTree"

section \<open>Plan nodes and expressions\<close>

text \<open>
  The plan operators and expressions that the analysed rules name. A node is built as
  the \<^verbatim>\<open>plan\<close> package builds it: from \<^verbatim>\<open>UnaryNode\<close> (one child),
  \<^verbatim>\<open>BinaryNode\<close> (left and right) or a block of statements, with the operator's own
  fields in its kind. \<open>JoinNode t l\<close> is a join of type \<open>t\<close> with scope length \<open>l\<close>
  (\<^verbatim>\<open>WithScopeLen\<close>); \<open>StripRowNode k\<close> strips \<open>k\<close> leading columns;
  \<open>CreateTrigger\<close> has the trigger's table and body as its two children;
  \<open>SubqueryAlias name columns\<close> carries its explicit column aliases. Go's \<^verbatim>\<open>int\<close>
  is \<open>int\<close>.
\<close>

datatype JoinType = JoinTypeInner | JoinTypeLeft | JoinTypeRight

datatype Window = Window string

datatype FunctionClass = ScalarFunction | AggregationFunction | WindowAggregationFunction

datatype LeafKind = ResolvedTable string | UnresolvedTable string

datatype UnaryKind =
    Project
  | Filter
  | SubqueryAlias string "string list"
  | TableAlias string
  | CachedResults
  | StripRowNode int
  | QueryProcess
  | StartTransaction

datatype BinaryKind = JoinNode JoinType int | IndexedJoin JoinType | CrossJoin | CreateTrigger

datatype BlockKind = TriggerBeginEndBlock | BeginEndBlock

text \<open>
  An expression may own a plan (\<open>Subquery query canCacheResults\<close>) and a node owns
  expressions, so the two types are mutually recursive. \<open>FunctionCall\<close> stands for
  every resolved expression with operands; its window is the one \<^verbatim>\<open>WithWindow\<close> set.
\<close>

datatype expr =
    GetField int
  | Literal int
  | UnresolvedFunction string "expr list" "Window option"
  | FunctionCall string FunctionClass "expr list" "Window option"
  | Subquery node bool
and node =
    Leaf LeafKind
  | Unary UnaryKind "expr list" node
  | Binary BinaryKind "expr list" node node
  | Block BlockKind "node list"

subsection \<open>The tree node model\<close>

text \<open>
  Modelled from the spec: \<^verbatim>\<open>Children\<close>, \<^verbatim>\<open>WithChildren\<close>, \<^verbatim>\<open>Expressions\<close> and
  \<^verbatim>\<open>WithExpressions\<close> of the \<^verbatim>\<open>sql.Node\<close>, \<^verbatim>\<open>sql.Expression\<close> and
  \<^verbatim>\<open>sql.Expressioner\<close> interfaces are not among the sources. Section 4.1: every node
  has its ordered children and a rebuild with replacement children that fails with an
  arity error when their number differs; expressions mirror this. A subquery expression
  has no expression children (its plan is a node, not an expression).
\<close>

fun Children :: "node \<Rightarrow> node list" where
  "Children (Leaf k) = []"
| "Children (Unary k es c) = [c]"
| "Children (Binary k es l r) = [l, r]"
| "Children (Block k cs) = cs"

fun WithChildren :: "node \<Rightarrow> node list \<Rightarrow> error + node" where
  "WithChildren (Leaf k) cs =
     (if length cs \<noteq> 0 then Inl (ErrInvalidChildrenNumber (length cs) 0) else Inr (Leaf k))"
| "WithChildren (Unary k es c) cs =
     (case cs of [c'] \<Rightarrow> Inr (Unary k es c')
      | _ \<Rightarrow> Inl (ErrInvalidChildrenNumber (length cs) 1))"
| "WithChildren (Binary k es l r) cs =
     (case cs of [l', r'] \<Rightarrow> Inr (Binary k es l' r')
      | _ \<Rightarrow> Inl (ErrInvalidChildrenNumber (length cs) 2))"
| "WithChildren (Block k cs0) cs =
     (if length cs \<noteq> length cs0 then Inl (ErrInvalidChildrenNumber (length cs) (length cs0))
      else Inr (Block k cs))"

text \<open>
  Which nodes are \<^verbatim>\<open>sql.Expressioner\<close>s: projections, filters and the joins with a
  condition. For every other kind the expression list of the constructor is unused.
\<close>

fun isExpressioner :: "node \<Rightarrow> bool" where
  "isExpressioner (Unary Project es c) = True"
| "isExpressioner (Unary Filter es c) = True"
| "isExpressioner (Binary (JoinNode t l) es a b) = True"
| "isExpressioner (Binary (IndexedJoin t) es a b) = True"
| "isExpressioner _ = False"

fun Expressions :: "node \<Rightarrow> expr list" where
  "Expressions (Leaf k) = []"
| "Expressions (Unary k es c) = es"
| "Expressions (Binary k es l r) = es"
| "Expressions (Block k cs) = []"

fun WithExpressions :: "node \<Rightarrow> expr list \<Rightarrow> error + node" where
  "WithExpressions (Leaf k) es' =
     (if length es' \<noteq> 0 then Inl (ErrInvalidChildrenNumber (length es') 0) else Inr (Leaf k))"
| "WithExpressions (Unary k es c) es' =
     (if length es' \<noteq> length es then Inl (ErrInvalidChildrenNumber (length es') (length es))
      else Inr (Unary k es' c))"
| "WithExpressions (Binary k es l r) es' =
     (if length es' \<noteq> length es then Inl (ErrInvalidChildrenNumber (length es') (length es))
      else Inr (Binary k es' l r))"
| "WithExpressions (Block k cs) es' =
     (if length es' \<noteq> 0 then Inl (ErrInvalidChildrenNumber (length es') 0) else Inr (Block k cs))"

fun exprChildren :: "expr \<Rightarrow> expr list" where
  "exprChildren (GetField i) = []"
| "exprChildren (Literal v) = []"
| "exprChildren (UnresolvedFunction name args w) = args"
| "exprChildren (FunctionCall name cl args w) = args"
| "exprChildren (Subquery q c) = []"

fun exprWithChildren :: "expr \<Rightarrow> expr list \<Rightarrow> error + expr" where
  "exprWithChildren (UnresolvedFunction name args w) cs =
     (if length cs \<noteq> length args
      then Inl (ErrInvalidChildrenNumber (length cs) (length args))
      else Inr (UnresolvedFunction name cs w))"
| "exprWithChildren (FunctionCall name cl args w) cs =
     (if length cs \<noteq> length args
      then Inl (ErrInvalidChildrenNumber (length cs) (length args))
      else Inr (FunctionCall name cl cs w))"
| "exprWithChildren e cs =
     (if length cs \<noteq> 0 then Inl (ErrInvalidChildrenNumber (length cs) 0) else Inr e)"

lemma exprChildren_size: "c \<in> set (exprChildren e) \<Longrightarrow> size c < size e"
  by (cases e) (auto simp: less_Suc_eq_le dest: size_list_estimation')

lemma Children_size: "c \<in> set (Children n) \<Longrightarrow> size c < size n"
  by (cases n) (auto simp: less_Suc_eq_le dest: size_list_estimation')

subsection \<open>Inspecting a tree\<close>

text \<open>
  Modelled from the spec: \<^verbatim>\<open>sql.Inspect\<close> (expressions) and \<^verbatim>\<open>visit.Inspect\<close>
  (nodes) are not among the sources. They walk a tree from the top, calling the visitor
  on each element and descending into its children only when the visitor returned true
  (section 4.5: a recursive check that short-circuits on a violation). The variable the
  Go closure assigns is the state \<open>'s\<close> threaded through the walk.
\<close>

function Inspect :: "(expr \<Rightarrow> 's \<Rightarrow> bool \<times> 's) \<Rightarrow> expr \<Rightarrow> 's \<Rightarrow> 's" where
  "Inspect f e s =
     (case f e s of
        (True, s') \<Rightarrow> fold (Inspect f) (exprChildren e) s'
      | (False, s') \<Rightarrow> s')"
  by pat_completeness auto
termination
  by (relation "measure (\<lambda>(f, e, s). size e)") (auto simp: exprChildren_size)

declare Inspect.simps [simp del]

function InspectNodes :: "(node \<Rightarrow> 's \<Rightarrow> bool \<times> 's) \<Rightarrow> node \<Rightarrow> 's \<Rightarrow> 's" where
  "InspectNodes f n s =
     (case f n s of
        (True, s') \<Rightarrow> fold (InspectNodes f) (Children n) s'
      | (False, s') \<Rightarrow> s')"
  by pat_completeness auto
termination
  by (relation "measure (\<lambda>(f, n, s). size n)") (auto simp: Children_size)

declare InspectNodes.simps [simp del]

subsection \<open>Resolved trees\<close>

text \<open>
  Modelled from the spec: the \<^verbatim>\<open>Resolved\<close> methods are not among the sources.
  Section 3: a node or expression is resolved iff its own metadata is fully bound and
  all its children are resolved; a subquery expression is resolved when its plan is. An
  unresolved function call and an unresolved table are never resolved.
\<close>

fun exprResolved :: "expr \<Rightarrow> bool" and nodeResolved :: "node \<Rightarrow> bool" where
  "exprResolved (GetField i) = True"
| "exprResolved (Literal v) = True"
| "exprResolved (UnresolvedFunction name args w) = False"
| "exprResolved (FunctionCall name cl args w) = (\<forall>x \<in> set args. exprResolved x)"
| "exprResolved (Subquery q c) = nodeResolved q"
| "nodeResolved (Leaf (ResolvedTable t)) = True"
| "nodeResolved (Leaf (UnresolvedTable t)) = False"
| "nodeResolved (Unary k es c) = ((\<forall>x \<in> set es. exprResolved x) \<and> nodeResolved c)"
| "nodeResolved (Binary k es l r) =
     ((\<forall>x \<in> set es. exprResolved x) \<and> nodeResolved l \<and> nodeResolved r)"
| "nodeResolved (Block k cs) = (\<forall>c \<in> set cs. nodeResolved c)"

subsection \<open>Scopes\<close>

text \<open>
  Modelled from the spec: the analyzer's \<^verbatim>\<open>Scope\<close> is not among the sources.
  Section 3: a scope owns a reference to its parent scope (or none) and to the node it
  was created for; \<^verbatim>\<open>newScope\<close> pushes one level; \<^verbatim>\<open>Schema\<close> is the concatenation of
  the columns visible from all enclosing levels. A \<^verbatim>\<open>*Scope\<close> that is \<^verbatim>\<open>nil\<close> is
  \<open>None\<close>. How many columns one scope node makes visible depends on node schemas that
  are not among the sources; it is the parameter \<open>width\<close>, and \<open>SchemaLen\<close> is
  \<^verbatim>\<open>len(scope.Schema())\<close>.
\<close>

datatype Scope = Scope "Scope option" node

definition newScope :: "Scope option \<Rightarrow> node \<Rightarrow> Scope option" where
  "newScope s n = Some (Scope s n)"

fun scopeColumns :: "(node \<Rightarrow> nat) \<Rightarrow> Scope \<Rightarrow> nat" where
  "scopeColumns width (Scope None n) = width n"
| "scopeColumns width (Scope (Some p) n) = scopeColumns width p + width n"

definition SchemaLen :: "(node \<Rightarrow> nat) \<Rightarrow> Scope option \<Rightarrow> int" where
  "SchemaLen width s = (case s of None \<Rightarrow> 0 | Some sc \<Rightarrow> int (scopeColumns width sc))"

subsection \<open>The transformation engine\<close>

text \<open>
  Modelled from the spec: the package \<^verbatim>\<open>visit\<close> (\<^verbatim>\<open>Nodes\<close>, \<^verbatim>\<open>NodesWithCtx\<close>,
  \<^verbatim>\<open>NodesExprsWithNode\<close>) is not among the sources. Section 4.2: a bottom-up transform
  visits every node, children before parents; the context-aware one hands the visitor
  the parent and the child's ordinal position, and a selector decides which children
  are walked; the expression transform applies an expression rewrite, bottom-up, to every
  expression attached to every node. Each returns the new tree and a change identity, or
  the first error, which aborts the traversal. Section 3: rewriting produces a new tree
  sharing unchanged subtrees, and the change identity lets the engine avoid allocation;
  so a child whose visit reports \<^verbatim>\<open>SameTree\<close> stays as it was, a parent is rebuilt
  only when some child reports \<^verbatim>\<open>NewTree\<close>, and the result is \<^verbatim>\<open>SameTree\<close> only when
  the children and the visitor of the node itself all report it.

  \<open>splice originals results\<close> is the loop over the children: the first error, or the
  children with every changed one replaced, and whether all are the same.
\<close>

fun splice :: "'a list \<Rightarrow> (error + 'a \<times> TreeIdentity) list \<Rightarrow> error + 'a list \<times> TreeIdentity" where
  "splice (c # cs) (r # rs) =
     (case r of
        Inl err \<Rightarrow> Inl err
      | Inr (c', same) \<Rightarrow>
          (case splice cs rs of
             Inl err \<Rightarrow> Inl err
           | Inr (cs', sameRest) \<Rightarrow>
               Inr ((if same = SameTree then c else c') # cs', andTree same sameRest)))"
| "splice _ _ = Inr ([], SameTree)"

function Nodes ::
  "node \<Rightarrow> (node \<Rightarrow> error + node \<times> TreeIdentity) \<Rightarrow> error + node \<times> TreeIdentity" where
  "Nodes node f =
     (if Children node = [] then f node
      else case splice (Children node) (map (\<lambda>child. Nodes child f) (Children node)) of
             Inl err \<Rightarrow> Inl err
           | Inr (newChildren, sameC) \<Rightarrow>
               (case (if sameC = NewTree then WithChildren node newChildren else Inr node) of
                  Inl err \<Rightarrow> Inl err
                | Inr node' \<Rightarrow>
                    (case f node' of
                       Inl err \<Rightarrow> Inl err
                     | Inr (node'', sameN) \<Rightarrow> Inr (node'', andTree sameC sameN))))"
  by pat_completeness auto
termination
  by (relation "measure (\<lambda>(n, f). size n)") (auto simp: Children_size)

declare Nodes.simps [simp del]

record TransformContext =
  Node :: node
  Parent :: "node option"
  ChildNum :: int

text \<open>\<^verbatim>\<open>s == nil || s(cc)\<close>: a missing selector selects every child.\<close>

definition selects :: "(TransformContext \<Rightarrow> bool) option \<Rightarrow> TransformContext \<Rightarrow> bool" where
  "selects s cc = (case s of None \<Rightarrow> True | Some sel \<Rightarrow> sel cc)"

function NodesWithCtxHelper ::
  "TransformContext \<Rightarrow> (TransformContext \<Rightarrow> bool) option \<Rightarrow>
   (TransformContext \<Rightarrow> error + node \<times> TreeIdentity) \<Rightarrow> error + node \<times> TreeIdentity" where
  "NodesWithCtxHelper c s f =
     (if Children (Node c) = [] then f c
      else case splice (Children (Node c))
                  (map (\<lambda>i.
                     if selects s \<lparr>Node = Children (Node c) ! i, Parent = Some (Node c),
                                   ChildNum = int i\<rparr>
                     then NodesWithCtxHelper
                            \<lparr>Node = Children (Node c) ! i, Parent = Some (Node c), ChildNum = int i\<rparr>
                            s f
                     else Inr (Children (Node c) ! i, SameTree))
                   [0..<length (Children (Node c))]) of
             Inl err \<Rightarrow> Inl err
           | Inr (newChildren, sameC) \<Rightarrow>
               (case (if sameC = NewTree then WithChildren (Node c) newChildren
                      else Inr (Node c)) of
                  Inl err \<Rightarrow> Inl err
                | Inr node' \<Rightarrow>
                    (case f (c\<lparr>Node := node'\<rparr>) of
                       Inl err \<Rightarrow> Inl err
                     | Inr (node'', sameN) \<Rightarrow> Inr (node'', andTree sameC sameN))))"
  by pat_completeness auto
termination
  by (relation "measure (\<lambda>(c, s, f). size (Node c))") (auto simp: Children_size)

declare NodesWithCtxHelper.simps [simp del]

definition NodesWithCtx ::
  "node \<Rightarrow> (TransformContext \<Rightarrow> bool) option \<Rightarrow>
   (TransformContext \<Rightarrow> error + node \<times> TreeIdentity) \<Rightarrow> error + node \<times> TreeIdentity" where
  "NodesWithCtx n s f = NodesWithCtxHelper \<lparr>Node = n, Parent = None, ChildNum = - 1\<rparr> s f"

function ExprWithNode ::
  "node \<Rightarrow> expr \<Rightarrow> (node \<Rightarrow> expr \<Rightarrow> error + expr \<times> TreeIdentity) \<Rightarrow>
   error + expr \<times> TreeIdentity" where
  "ExprWithNode n e f =
     (if exprChildren e = [] then f n e
      else case splice (exprChildren e) (map (\<lambda>c. ExprWithNode n c f) (exprChildren e)) of
             Inl err \<Rightarrow> Inl err
           | Inr (newChildren, sameC) \<Rightarrow>
               (case (if sameC = NewTree then exprWithChildren e newChildren else Inr e) of
                  Inl err \<Rightarrow> Inl err
                | Inr e' \<Rightarrow>
                    (case f n e' of
                       Inl err \<Rightarrow> Inl err
                     | Inr (e'', sameN) \<Rightarrow> Inr (e'', andTree sameC sameN))))"
  by pat_completeness auto
termination
  by (relation "measure (\<lambda>(n, e, f). size e)") (auto simp: exprChildren_size)

declare ExprWithNode.simps [simp del]

definition OneNodeExprsWithNode ::
  "node \<Rightarrow> (node \<Rightarrow> expr \<Rightarrow> error + expr \<times> TreeIdentity) \<Rightarrow> error + node \<times> TreeIdentity" where
  "OneNodeExprsWithNode n f =
     (if \<not> isExpressioner n then Inr (n, SameTree)
      else case splice (Expressions n) (map (\<lambda>e. ExprWithNode n e f) (Expressions n)) of
             Inl err \<Rightarrow> Inl err
           | Inr (newExprs, same) \<Rightarrow>
               if same = NewTree
               then (case WithExpressions n newExprs of
                       Inl err \<Rightarrow> Inl err
                     | Inr n' \<Rightarrow> Inr (n', NewTree))
               else Inr (n, SameTree))"

definition NodesExprsWithNode ::
  "node \<Rightarrow> (node \<Rightarrow> expr \<Rightarrow> error + expr \<times> TreeIdentity) \<Rightarrow> error + node \<times> TreeIdentity" where
  "NodesExprsWithNode node f = Nodes node (\<lambda>n. OneNodeExprsWithNode n f)"







section \<open>Cacheability (analyzer, resolve\_subqueries)\<close>

text \<open>
  Whether an expression implements \<^verbatim>\<open>sql.NonDeterministicExpression\<close> and answers
  true to \<^verbatim>\<open>IsNonDeterministic\<close> depends on expression types that are not among the
  sources; it is the parameter \<open>nonDet\<close>.
\<close>

fun isGetField :: "expr \<Rightarrow> bool" where
  "isGetField (GetField i) = True"
| "isGetField _ = False"

fun Index :: "expr \<Rightarrow> int" where
  "Index (GetField i) = i"
| "Index _ = 0"

definition exprIsCacheable :: "(expr \<Rightarrow> bool) \<Rightarrow> expr \<Rightarrow> int \<Rightarrow> bool" where
  "exprIsCacheable nonDet expr lowestAllowedIdx =
     Inspect (\<lambda>e cacheable.
        if isGetField e \<and> Index e < lowestAllowedIdx then (False, False)
        else if nonDet e then (False, False)
        else (True, cacheable)) expr True"

fun isSubqueryAlias :: "node \<Rightarrow> bool" where
  "isSubqueryAlias (Unary (SubqueryAlias name cols) es c) = True"
| "isSubqueryAlias _ = False"

definition nodeIsCacheable :: "(expr \<Rightarrow> bool) \<Rightarrow> node \<Rightarrow> int \<Rightarrow> bool" where
  "nodeIsCacheable nonDet n lowestAllowedIdx =
     InspectNodes (\<lambda>node cacheable.
        if isExpressioner node then
          (if \<exists>expr \<in> set (Expressions node). \<not> exprIsCacheable nonDet expr lowestAllowedIdx
           then (False, False) else (True, cacheable))
        else if isSubqueryAlias node then (False, cacheable)
        else (True, cacheable)) n True"

text \<open>
  The sub-expressions of an expression are itself and, recursively, its operands
  (\<^verbatim>\<open>Children\<close>); the plan of a subquery expression is not among them.
  \<open>inspectedExprs n\<close> are the expressions that the walk of \<^verbatim>\<open>nodeIsCacheable\<close> looks
  at: those of every expressioner it visits, where it visits the children of every
  node but those of a subquery alias (lines 191 to 197 of the source). Expressions
  below a subquery alias are not among them.
\<close>

function subexprs :: "expr \<Rightarrow> expr list" where
  "subexprs e = e # concat (map subexprs (exprChildren e))"
  by pat_completeness auto
termination
  by (relation "measure size") (auto simp: exprChildren_size)

declare subexprs.simps [simp del]

function inspectedExprs :: "node \<Rightarrow> expr list" where
  "inspectedExprs n =
     (if isExpressioner n then Expressions n @ concat (map inspectedExprs (Children n))
      else if isSubqueryAlias n then []
      else concat (map inspectedExprs (Children n)))"
  by pat_completeness auto
termination
  by (relation "measure size") (auto simp: Children_size)

declare inspectedExprs.simps [simp del]

section \<open>Function resolution (analyzer, resolve\_functions)\<close>















section \<open>Subquery rules (analyzer, resolve\_subqueries)\<close>

text \<open>
  The analyzer's recursive entry points are not among the sources; they are fields of
  the parameter \<open>a\<close>. Each returns Go's triple: the tree (on failure, the partially
  analysed one), the change identity and the error, if any.
\<close>

record analysis =
  analyzedNode :: node
  sameTree :: TreeIdentity
  analysisErr :: "error option"

datatype BatchSelector = analyzeAll | otherBatches string

record Analyzer =
  analyzeThroughBatch :: "node \<Rightarrow> Scope option \<Rightarrow> string \<Rightarrow> analysis"
  analyzeStartingAtBatch :: "node \<Rightarrow> Scope option \<Rightarrow> string \<Rightarrow> analysis"
  analyzeWithSelector :: "node \<Rightarrow> Scope option \<Rightarrow> BatchSelector \<Rightarrow> analysis"

fun StripPassthroughNodes :: "node \<Rightarrow> node" where
  "StripPassthroughNodes (Unary QueryProcess es c) = StripPassthroughNodes c"
| "StripPassthroughNodes (Unary StartTransaction es c) = StripPassthroughNodes c"
| "StripPassthroughNodes n = n"

text \<open>
  The visitor of \<^verbatim>\<open>resolveSubqueries\<close>. \<^verbatim>\<open>schemaLength\<close> is a function of the
  analyzer package that is not among the sources: a parameter.
\<close>

fun resolveSubqueriesVisit ::
  "(node \<Rightarrow> nat) \<Rightarrow> Analyzer \<Rightarrow> node \<Rightarrow> error + node \<times> TreeIdentity" where
  "resolveSubqueriesVisit schemaLength a (Unary (SubqueryAlias name Columns) es Child) =
     (let r = analyzeThroughBatch a Child None ''default-rules'' in
      case analysisErr r of
        Some e \<Rightarrow> Inl e
      | None \<Rightarrow>
          if length Columns > 0 \<and> schemaLength Child \<noteq> length Columns
          then Inl ErrColumnCountMismatch
          else if sameTree r = SameTree
          then Inr (Unary (SubqueryAlias name Columns) es Child, SameTree)
          else (case WithChildren (Unary (SubqueryAlias name Columns) es Child)
                       [StripPassthroughNodes (analyzedNode r)] of
                  Inl e \<Rightarrow> Inl e
                | Inr newn \<Rightarrow> Inr (newn, NewTree)))"
| "resolveSubqueriesVisit schemaLength a n = Inr (n, SameTree)"

definition resolveSubqueries ::
  "(node \<Rightarrow> nat) \<Rightarrow> Analyzer \<Rightarrow> node \<Rightarrow> Scope option \<Rightarrow> error + node \<times> TreeIdentity" where
  "resolveSubqueries schemaLength a n scope = Nodes n (resolveSubqueriesVisit schemaLength a)"

fun finalizeSubqueriesVisit ::
  "(node \<Rightarrow> nat) \<Rightarrow> Analyzer \<Rightarrow> node \<Rightarrow> error + node \<times> TreeIdentity" where
  "finalizeSubqueriesVisit schemaLength a (Unary (SubqueryAlias name Columns) es Child) =
     (let r = analyzeStartingAtBatch a Child None ''default-rules'' in
      case analysisErr r of
        Some e \<Rightarrow> Inl e
      | None \<Rightarrow>
          if length Columns > 0 \<and> schemaLength Child \<noteq> length Columns
          then Inl ErrColumnCountMismatch
          else if sameTree r = SameTree
          then Inr (Unary (SubqueryAlias name Columns) es Child, SameTree)
          else (case WithChildren (Unary (SubqueryAlias name Columns) es Child)
                       [StripPassthroughNodes (analyzedNode r)] of
                  Inl e \<Rightarrow> Inl e
                | Inr newn \<Rightarrow> Inr (newn, NewTree)))"
| "finalizeSubqueriesVisit schemaLength a n = Inr (n, SameTree)"

definition finalizeSubqueries ::
  "(node \<Rightarrow> nat) \<Rightarrow> Analyzer \<Rightarrow> node \<Rightarrow> Scope option \<Rightarrow> error + node \<times> TreeIdentity" where
  "finalizeSubqueries schemaLength a n scope = Nodes n (finalizeSubqueriesVisit schemaLength a)"

text \<open>
  \<^verbatim>\<open>ErrValidationResolved.Is(err) || ErrTableColumnNotFound.Is(err) ||
  ErrColumnNotFound.Is(err)\<close>: the errors deferred to a later pass.
\<close>

fun isDeferred :: "error \<Rightarrow> bool" where
  "isDeferred ErrValidationResolved = True"
| "isDeferred (ErrTableColumnNotFound t c) = True"
| "isDeferred (ErrColumnNotFound c) = True"
| "isDeferred _ = False"

text \<open>
  \<^verbatim>\<open>WithQuery\<close> and \<^verbatim>\<open>WithCachedResults\<close> copy the subquery expression with a new
  plan, and with the flag that its results may be cached.
\<close>

fun WithQuery :: "expr \<Rightarrow> node \<Rightarrow> expr" where
  "WithQuery (Subquery q c) q' = Subquery q' c"
| "WithQuery e q' = e"

fun WithCachedResults :: "expr \<Rightarrow> expr" where
  "WithCachedResults (Subquery q c) = Subquery q True"
| "WithCachedResults e = e"

fun resolveSubqueryExpressionsVisit ::
  "Analyzer \<Rightarrow> Scope option \<Rightarrow> node \<Rightarrow> expr \<Rightarrow> error + expr \<times> TreeIdentity" where
  "resolveSubqueryExpressionsVisit a scope n (Subquery query c) =
     (let subScope = newScope scope n;
          r = analyzeWithSelector a query subScope analyzeAll in
      case analysisErr r of
        Some e \<Rightarrow>
          if isDeferred e then Inr (WithQuery (Subquery query c) (analyzedNode r), sameTree r)
          else Inl e
      | None \<Rightarrow>
          if sameTree r = SameTree then Inr (Subquery query c, SameTree)
          else Inr (WithQuery (Subquery query c) (StripPassthroughNodes (analyzedNode r)), NewTree))"
| "resolveSubqueryExpressionsVisit a scope n e = Inr (e, SameTree)"

text \<open>
  \<^verbatim>\<open>nodesEqual\<close> is not among the sources; it compares two trees structurally, which
  is equality of the datatype.
\<close>

definition nodesEqual :: "node \<Rightarrow> node \<Rightarrow> bool" where
  "nodesEqual x y = (x = y)"

definition resolveSubqueryExpressions ::
  "Analyzer \<Rightarrow> node \<Rightarrow> Scope option \<Rightarrow> error + node \<times> TreeIdentity" where
  "resolveSubqueryExpressions a n scope =
     (case NodesExprsWithNode n (resolveSubqueryExpressionsVisit a scope) of
        Inl e \<Rightarrow> Inl e
      | Inr (newn, _) \<Rightarrow>
          if nodesEqual newn n then Inr (n, SameTree) else Inr (newn, NewTree))"

fun isSubquery :: "expr \<Rightarrow> bool" where
  "isSubquery (Subquery q c) = True"
| "isSubquery _ = False"

fun Query :: "expr \<Rightarrow> node" where
  "Query (Subquery q c) = q"
| "Query _ = Leaf (UnresolvedTable [])"

definition cacheSubqueryResultsVisit ::
  "(expr \<Rightarrow> bool) \<Rightarrow> (node \<Rightarrow> nat) \<Rightarrow> Scope option \<Rightarrow> node \<Rightarrow> expr \<Rightarrow>
   error + expr \<times> TreeIdentity" where
  "cacheSubqueryResultsVisit nonDet width scope n e =
     (if \<not> isSubquery e \<or> \<not> exprResolved e then Inr (e, SameTree)
      else let scopeLen = SchemaLen width (newScope scope n);
               cacheable = nodeIsCacheable nonDet (Query e) scopeLen in
           if cacheable then Inr (WithCachedResults e, NewTree)
           else Inr (e, SameTree))"

fun isTriggerBeginEndBlock :: "node \<Rightarrow> bool" where
  "isTriggerBeginEndBlock (Block TriggerBeginEndBlock cs) = True"
| "isTriggerBeginEndBlock _ = False"

definition cacheSubqueryResults ::
  "(expr \<Rightarrow> bool) \<Rightarrow> (node \<Rightarrow> nat) \<Rightarrow> node \<Rightarrow> Scope option \<Rightarrow> error + node \<times> TreeIdentity" where
  "cacheSubqueryResults nonDet width n scope =
     (if isTriggerBeginEndBlock n then Inr (n, SameTree)
      else NodesExprsWithNode n (cacheSubqueryResultsVisit nonDet width scope))"

text \<open>
  \<^verbatim>\<open>cacheSubqueryAlisesInJoins\<close>. \<open>isJoinNode\<close> is the type test for the interface
  \<^verbatim>\<open>plan.JoinNode\<close>, \<open>isIndexedJoin\<close> the one for \<^verbatim>\<open>*plan.IndexedJoin\<close>.
\<close>

fun isJoinNode :: "node option \<Rightarrow> bool" where
  "isJoinNode (Some (Binary (JoinNode t l) es a b)) = True"
| "isJoinNode _ = False"

fun isIndexedJoin :: "node option \<Rightarrow> bool" where
  "isIndexedJoin (Some (Binary (IndexedJoin t) es a b)) = True"
| "isIndexedJoin _ = False"

fun JoinTypeOf :: "node option \<Rightarrow> JoinType" where
  "JoinTypeOf (Some (Binary (JoinNode t l) es a b)) = t"
| "JoinTypeOf (Some (Binary (IndexedJoin t) es a b)) = t"
| "JoinTypeOf _ = JoinTypeInner"

definition NewCachedResults :: "node \<Rightarrow> node" where
  "NewCachedResults n = Unary CachedResults [] n"

definition cacheAliasVisit :: "TransformContext \<Rightarrow> error + node \<times> TreeIdentity" where
  "cacheAliasVisit c =
     (if (isJoinNode (Parent c) \<or> isIndexedJoin (Parent c)) \<and> isSubqueryAlias (Node c)
      then Inr (NewCachedResults (Node c), NewTree)
      else Inr (Node c, SameTree))"

definition primarySelector :: "TransformContext \<Rightarrow> bool" where
  "primarySelector c =
     (if isIndexedJoin (Parent c) then ChildNum c = 0
      else if isJoinNode (Parent c) then
        (if JoinTypeOf (Parent c) = JoinTypeRight then ChildNum c = 1 else ChildNum c = 0)
      else True)"

fun isCachedResults :: "node \<Rightarrow> bool" where
  "isCachedResults (Unary CachedResults es c) = True"
| "isCachedResults _ = False"

text \<open>\<^verbatim>\<open>cr.UnaryNode.Child\<close>, read only after the type test for \<^verbatim>\<open>*plan.CachedResults\<close>.\<close>

fun UnaryNodeChild :: "node \<Rightarrow> node" where
  "UnaryNodeChild (Unary k es c) = c"
| "UnaryNodeChild n = n"

definition uncacheVisit :: "TransformContext \<Rightarrow> error + node \<times> TreeIdentity" where
  "uncacheVisit c =
     (if isCachedResults (Node c) then Inr (UnaryNodeChild (Node c), NewTree)
      else Inr (Node c, SameTree))"

definition cacheSubqueryAlisesInJoins ::
  "node \<Rightarrow> Scope option \<Rightarrow> error + node \<times> TreeIdentity" where
  "cacheSubqueryAlisesInJoins n scope =
     (case NodesWithCtx n None cacheAliasVisit of
        Inl e \<Rightarrow> Inl e
      | Inr (n', sameA) \<Rightarrow>
          if scope = None
          then (case NodesWithCtx n' (Some primarySelector) uncacheVisit of
                  Inl e \<Rightarrow> Inl e
                | Inr (n'', sameD) \<Rightarrow> Inr (n'', andTree sameA sameD))
          else Inr (n', andTree sameA SameTree))"

text \<open>
  \<^verbatim>\<open>setJoinScopeLen\<close>. \<^verbatim>\<open>WithScopeLen\<close> copies a join with a new scope length;
  \<^verbatim>\<open>Left\<close> is the first child.
\<close>

fun isStripRowNode :: "node \<Rightarrow> bool" where
  "isStripRowNode (Unary (StripRowNode k) es c) = True"
| "isStripRowNode _ = False"

definition NewStripRowNode :: "node \<Rightarrow> int \<Rightarrow> node" where
  "NewStripRowNode child numCols = Unary (StripRowNode numCols) [] child"

fun setJoinScopeLenVisit :: "int \<Rightarrow> node \<Rightarrow> error + node \<times> TreeIdentity" where
  "setJoinScopeLenVisit scopeLen (Binary (JoinNode t l) es left right) =
     (let nj = Binary (JoinNode t scopeLen) es left right in
      if \<not> isStripRowNode left
      then (case WithChildren nj [NewStripRowNode left scopeLen, NewStripRowNode right scopeLen] of
              Inl e \<Rightarrow> Inl e
            | Inr nj' \<Rightarrow> Inr (nj', NewTree))
      else Inr (nj, SameTree))"
| "setJoinScopeLenVisit scopeLen n = Inr (n, SameTree)"

definition setJoinScopeLen ::
  "(node \<Rightarrow> nat) \<Rightarrow> node \<Rightarrow> Scope option \<Rightarrow> error + node \<times> TreeIdentity" where
  "setJoinScopeLen width n scope =
     (let scopeLen = SchemaLen width scope in
      if scopeLen = 0 then Inr (n, SameTree)
      else Nodes n (setJoinScopeLenVisit scopeLen))"

subsection \<open>Analyzers for the examples\<close>

text \<open>
  Three stand-ins for the recursive analysis, used in the examples below. \<open>idleAnalyzer\<close>
  succeeds and changes nothing. \<open>failingAnalyzer e\<close> fails with \<open>e\<close> and hands back
  the tree it was given. \<open>outerColumnAnalyzer\<close> can bind the column \<open>x\<close> only from an
  outer scope: given no scope it fails with \<^verbatim>\<open>ErrColumnNotFound\<close>, given one it succeeds.
\<close>

definition idleAnalyzer :: Analyzer where
  "idleAnalyzer =
     \<lparr>analyzeThroughBatch =
        (\<lambda>n s b. \<lparr>analyzedNode = n, sameTree = SameTree, analysisErr = None\<rparr>),
      analyzeStartingAtBatch =
        (\<lambda>n s b. \<lparr>analyzedNode = n, sameTree = SameTree, analysisErr = None\<rparr>),
      analyzeWithSelector =
        (\<lambda>n s b. \<lparr>analyzedNode = n, sameTree = SameTree, analysisErr = None\<rparr>)\<rparr>"

definition failingAnalyzer :: "error \<Rightarrow> Analyzer" where
  "failingAnalyzer e =
     \<lparr>analyzeThroughBatch =
        (\<lambda>n s b. \<lparr>analyzedNode = n, sameTree = SameTree, analysisErr = Some e\<rparr>),
      analyzeStartingAtBatch =
        (\<lambda>n s b. \<lparr>analyzedNode = n, sameTree = SameTree, analysisErr = Some e\<rparr>),
      analyzeWithSelector =
        (\<lambda>n s b. \<lparr>analyzedNode = n, sameTree = SameTree, analysisErr = Some e\<rparr>)\<rparr>"

definition outerColumnAnalysis :: "node \<Rightarrow> Scope option \<Rightarrow> analysis" where
  "outerColumnAnalysis n s =
     (case s of
        None \<Rightarrow> \<lparr>analyzedNode = n, sameTree = SameTree,
                  analysisErr = Some (ErrColumnNotFound ''x'')\<rparr>
      | Some sc \<Rightarrow> \<lparr>analyzedNode = n, sameTree = SameTree, analysisErr = None\<rparr>)"

definition outerColumnAnalyzer :: Analyzer where
  "outerColumnAnalyzer =
     \<lparr>analyzeThroughBatch = (\<lambda>n s b. outerColumnAnalysis n s),
      analyzeStartingAtBatch = (\<lambda>n s b. outerColumnAnalysis n s),
      analyzeWithSelector = (\<lambda>n s b. outerColumnAnalysis n s)\<rparr>"

text \<open>
  \<open>partialAnalyzer\<close> makes progress and then stops at a column it cannot find: it hands
  back the plan with its table resolved, the error \<^verbatim>\<open>ErrColumnNotFound\<close> and, as an
  analysis that returns at its first error does, the change identity \<^verbatim>\<open>SameTree\<close>.
\<close>

fun resolvedTable :: "node \<Rightarrow> node" where
  "resolvedTable (Leaf (UnresolvedTable t)) = Leaf (ResolvedTable t)"
| "resolvedTable n = n"

definition partialAnalysis :: "node \<Rightarrow> analysis" where
  "partialAnalysis n =
     \<lparr>analyzedNode = resolvedTable n, sameTree = SameTree,
      analysisErr = Some (ErrColumnNotFound ''x'')\<rparr>"

definition partialAnalyzer :: Analyzer where
  "partialAnalyzer =
     \<lparr>analyzeThroughBatch = (\<lambda>n s b. partialAnalysis n),
      analyzeStartingAtBatch = (\<lambda>n s b. partialAnalysis n),
      analyzeWithSelector = (\<lambda>n s b. partialAnalysis n)\<rparr>"

subsection \<open>What caching of subquery aliases in joins produces\<close>

text \<open>
  \<open>cachedAliases\<close> is the wrapping that section 4.5 of the spec describes: every
  subquery alias that is a direct child of a join or an indexed join is wrapped in a
  \<^verbatim>\<open>CachedResults\<close> node (\<open>underJoin\<close> says whether the parent is one), and nothing
  else changes. \<open>joinAliasesCached\<close> holds of a tree in which no join has a subquery
  alias as a direct child.

  \<open>primaryUncached\<close> describes the second traversal of the rule as it is written, not
  the spec's sentence about it: a walk from the root that goes into every child of a
  node that is not a join, and below a join into the primary operand only (the second
  child of a right join, the first child of any other join and of an indexed join),
  and that removes every \<^verbatim>\<open>CachedResults\<close> node it visits. \<open>primaryOperand\<close> is the
  operand such a descent arrives at, through projections and the like and through the
  primary operand of every join; it stops at a \<^verbatim>\<open>CachedResults\<close> node, at a subquery
  alias and at any other operator. \<open>offPrimaryCached\<close> holds of a tree in which the
  other operand of every join on that walk is not a bare subquery alias and has no
  join with a bare subquery alias below it.
\<close>

fun isJoinKind :: "BinaryKind \<Rightarrow> bool" where
  "isJoinKind (JoinNode t l) = True"
| "isJoinKind (IndexedJoin t) = True"
| "isJoinKind _ = False"

fun cachedAliases :: "bool \<Rightarrow> node \<Rightarrow> node" where
  "cachedAliases underJoin (Leaf k) = Leaf k"
| "cachedAliases underJoin (Unary k es c) =
     (if underJoin \<and> isSubqueryAlias (Unary k es c)
      then NewCachedResults (Unary k es (cachedAliases False c))
      else Unary k es (cachedAliases False c))"
| "cachedAliases underJoin (Binary k es a b) =
     Binary k es (cachedAliases (isJoinKind k) a) (cachedAliases (isJoinKind k) b)"
| "cachedAliases underJoin (Block k cs) = Block k (map (cachedAliases False) cs)"

fun isRightJoin :: "BinaryKind \<Rightarrow> bool" where
  "isRightJoin (JoinNode t l) = (t = JoinTypeRight)"
| "isRightJoin _ = False"

fun primaryUncached :: "node \<Rightarrow> node" where
  "primaryUncached (Leaf k) = Leaf k"
| "primaryUncached (Unary k es c) =
     (if k = CachedResults then primaryUncached c else Unary k es (primaryUncached c))"
| "primaryUncached (Binary k es a b) =
     (if isJoinKind k
      then (if isRightJoin k then Binary k es a (primaryUncached b)
            else Binary k es (primaryUncached a) b)
      else Binary k es (primaryUncached a) (primaryUncached b))"
| "primaryUncached (Block k cs) = Block k (map primaryUncached cs)"

fun primaryOperand :: "node \<Rightarrow> node" where
  "primaryOperand (Binary k es a b) =
     (if isJoinKind k then (if isRightJoin k then primaryOperand b else primaryOperand a)
      else Binary k es a b)"
| "primaryOperand (Unary k es c) =
     (if isCachedResults (Unary k es c) \<or> isSubqueryAlias (Unary k es c) then Unary k es c
      else primaryOperand c)"
| "primaryOperand n = n"

fun joinAliasesCached :: "node \<Rightarrow> bool" where
  "joinAliasesCached (Leaf k) = True"
| "joinAliasesCached (Unary k es c) = joinAliasesCached c"
| "joinAliasesCached (Binary k es a b) =
     ((isJoinKind k \<longrightarrow> \<not> isSubqueryAlias a \<and> \<not> isSubqueryAlias b)
      \<and> joinAliasesCached a \<and> joinAliasesCached b)"
| "joinAliasesCached (Block k cs) = (\<forall>c \<in> set cs. joinAliasesCached c)"

fun offPrimaryCached :: "node \<Rightarrow> bool" where
  "offPrimaryCached (Leaf k) = True"
| "offPrimaryCached (Unary k es c) = offPrimaryCached c"
| "offPrimaryCached (Binary k es a b) =
     (if isJoinKind k
      then (if isRightJoin k
            then \<not> isSubqueryAlias a \<and> joinAliasesCached a \<and> offPrimaryCached b
            else \<not> isSubqueryAlias b \<and> joinAliasesCached b \<and> offPrimaryCached a)
      else offPrimaryCached a \<and> offPrimaryCached b)"
| "offPrimaryCached (Block k cs) = (\<forall>c \<in> set cs. offPrimaryCached c)"

subsection \<open>What join scope propagation is to produce\<close>

text \<open>
  The result that section 4.6 of the spec describes, as a function of the tree:
  \<open>wrappedJoins w\<close> gives every join the scope length \<open>w\<close> and, unless the left
  operand is already a \<^verbatim>\<open>StripRowNode\<close>, wraps both operands in one of \<open>w\<close> columns.
  \<open>strippedJoinsAnnotated w\<close> holds of a tree in which every join whose left operand is
  already a \<^verbatim>\<open>StripRowNode\<close> has the scope length \<open>w\<close>; \<open>joinsWrapped w\<close> holds of a
  tree in which every join has the scope length \<open>w\<close> and a \<^verbatim>\<open>StripRowNode\<close> as its
  left operand.
\<close>

fun wrappedJoins :: "int \<Rightarrow> node \<Rightarrow> node" where
  "wrappedJoins w (Leaf k) = Leaf k"
| "wrappedJoins w (Unary k es c) = Unary k es (wrappedJoins w c)"
| "wrappedJoins w (Binary (JoinNode t l) es a b) =
     (if isStripRowNode a
      then Binary (JoinNode t w) es (wrappedJoins w a) (wrappedJoins w b)
      else Binary (JoinNode t w) es (NewStripRowNode (wrappedJoins w a) w)
                                    (NewStripRowNode (wrappedJoins w b) w))"
| "wrappedJoins w (Binary k es a b) = Binary k es (wrappedJoins w a) (wrappedJoins w b)"
| "wrappedJoins w (Block k cs) = Block k (map (wrappedJoins w) cs)"

fun strippedJoinsAnnotated :: "int \<Rightarrow> node \<Rightarrow> bool" where
  "strippedJoinsAnnotated w (Leaf k) = True"
| "strippedJoinsAnnotated w (Unary k es c) = strippedJoinsAnnotated w c"
| "strippedJoinsAnnotated w (Binary (JoinNode t l) es a b) =
     ((isStripRowNode a \<longrightarrow> l = w) \<and> strippedJoinsAnnotated w a \<and> strippedJoinsAnnotated w b)"
| "strippedJoinsAnnotated w (Binary k es a b) =
     (strippedJoinsAnnotated w a \<and> strippedJoinsAnnotated w b)"
| "strippedJoinsAnnotated w (Block k cs) = (\<forall>c \<in> set cs. strippedJoinsAnnotated w c)"

fun joinsWrapped :: "int \<Rightarrow> node \<Rightarrow> bool" where
  "joinsWrapped w (Leaf k) = True"
| "joinsWrapped w (Unary k es c) = joinsWrapped w c"
| "joinsWrapped w (Binary (JoinNode t l) es a b) =
     (l = w \<and> isStripRowNode a \<and> joinsWrapped w a \<and> joinsWrapped w b)"
| "joinsWrapped w (Binary k es a b) = (joinsWrapped w a \<and> joinsWrapped w b)"
| "joinsWrapped w (Block k cs) = (\<forall>c \<in> set cs. joinsWrapped w c)"

section \<open>Trigger creation iterator (sql/plan/ddl\_trigger.go)\<close>

record TriggerDefinition =
  Name :: string
  CreateStatement :: string
  CreatedAt :: nat

text \<open>
  A \<^verbatim>\<open>sql.Database\<close> has a name; it may also implement \<^verbatim>\<open>sql.TriggerDatabase\<close>,
  whose \<^verbatim>\<open>CreateTrigger\<close> belongs to the storage provider. The provider's state is
  the type \<open>'w\<close>; \<^verbatim>\<open>CreateTrigger\<close> returns its error (or none) and the new state.
\<close>

datatype 'w Database =
  Database (dbName: string)
    (triggerDatabase: "(TriggerDefinition \<Rightarrow> 'w \<Rightarrow> error option \<times> 'w) option")

datatype RowValue = OkResult nat

type_synonym Row = "RowValue list"

text \<open>\<open>once\<close> is the \<^verbatim>\<open>sync.Once\<close>: \<open>True\<close> when its \<^verbatim>\<open>Do\<close> has already run; \<open>triggerDefinition\<close> is the field \<^verbatim>\<open>definition\<close>.\<close>

record 'w createTriggerIter =
  once :: bool
  triggerDefinition :: TriggerDefinition
  db :: "'w Database"

definition Next ::
  "'w createTriggerIter \<Rightarrow> 'w \<Rightarrow> (error + Row) \<times> 'w createTriggerIter \<times> 'w" where
  "Next c w =
     (let run = \<not> once c; c' = c\<lparr>once := True\<rparr> in
      if \<not> run then (Inl EOF, c', w)
      else case triggerDatabase (db c) of
             None \<Rightarrow> (Inl (ErrTriggersNotSupported (dbName (db c))), c', w)
           | Some tdbCreateTrigger \<Rightarrow>
               (case tdbCreateTrigger (triggerDefinition c) w of
                  (Some err, w') \<Rightarrow> (Inl err, c', w')
                | (None, w') \<Rightarrow> (Inr [OkResult 0], c', w')))"

text \<open>\<^verbatim>\<open>CreateTrigger.RowIter\<close>: a fresh iterator whose \<^verbatim>\<open>once\<close> has not run.\<close>

definition RowIter :: "string \<Rightarrow> string \<Rightarrow> nat \<Rightarrow> 'w Database \<Rightarrow> 'w createTriggerIter" where
  "RowIter triggerName createTriggerString createdAt d =
     \<lparr>once = False,
      triggerDefinition = \<lparr>Name = triggerName, CreateStatement = createTriggerString,
                    CreatedAt = createdAt\<rparr>,
      db = d\<rparr>"

text \<open>A caller draining the iterator: \<open>k\<close> calls of \<^verbatim>\<open>Next\<close>, one after the other.\<close>

fun NextTimes ::
  "nat \<Rightarrow> 'w createTriggerIter \<Rightarrow> 'w \<Rightarrow> (error + Row) list \<times> 'w createTriggerIter \<times> 'w" where
  "NextTimes 0 c w = ([], c, w)"
| "NextTimes (Suc k) c w =
     (case Next c w of (r, c', w') \<Rightarrow>
        (case NextTimes k c' w' of (rs, c'', w'') \<Rightarrow> (r # rs, c'', w'')))"

section \<open>Properties of the transformation engine\<close>

lemma TreeIdentity_neq [simp]:
  "(s \<noteq> SameTree) = (s = NewTree)" "(s \<noteq> NewTree) = (s = SameTree)"
  by (cases s; simp)+

lemma andTree_simps [simp]:
  "andTree s SameTree = s" "andTree SameTree s = s"
  "andTree s NewTree = NewTree" "andTree NewTree s = NewTree"
  by (cases s; simp)+

lemma andTree_eq_Same [simp]: "andTree a b = SameTree \<longleftrightarrow> a = SameTree \<and> b = SameTree"
  by (cases a; cases b; simp)

lemma andTree_eq_New [simp]: "andTree a b = NewTree \<longleftrightarrow> a = NewTree \<or> b = NewTree"
  by (cases a; cases b; simp)

lemma Nodes_Leaf: "Nodes (Leaf k) f = f (Leaf k)"
  by (subst Nodes.simps) simp

lemma Nodes_Unary:
  "Nodes (Unary k es c) f =
     (case Nodes c f of
        Inl err \<Rightarrow> Inl err
      | Inr (c', sameC) \<Rightarrow>
          (case f (if sameC = SameTree then Unary k es c else Unary k es c') of
             Inl err \<Rightarrow> Inl err
           | Inr (n', sameN) \<Rightarrow> Inr (n', andTree sameC sameN)))"
  by (subst Nodes.simps) (auto split: sum.splits TreeIdentity.splits)

lemma Nodes_Binary:
  "Nodes (Binary k es l r) f =
     (case Nodes l f of
        Inl err \<Rightarrow> Inl err
      | Inr (l', sameL) \<Rightarrow>
          (case Nodes r f of
             Inl err \<Rightarrow> Inl err
           | Inr (r', sameR) \<Rightarrow>
               (case f (if andTree sameL sameR = SameTree then Binary k es l r
                        else Binary k es (if sameL = SameTree then l else l')
                                         (if sameR = SameTree then r else r')) of
                  Inl err \<Rightarrow> Inl err
                | Inr (n', sameN) \<Rightarrow> Inr (n', andTree (andTree sameL sameR) sameN))))"
  by (subst Nodes.simps) (auto split: sum.splits TreeIdentity.splits)

lemma splice_length:
  "length rs = length cs \<Longrightarrow> splice cs rs = Inr (cs', s) \<Longrightarrow> length cs' = length cs"
  by (induction cs rs arbitrary: cs' s rule: splice.induct) (auto split: sum.splits prod.splits)

lemma Nodes_Block:
  "Nodes (Block k cs) f =
     (if cs = [] then f (Block k cs)
      else case splice cs (map (\<lambda>c. Nodes c f) cs) of
             Inl err \<Rightarrow> Inl err
           | Inr (cs', sameC) \<Rightarrow>
               (case f (if sameC = SameTree then Block k cs else Block k cs') of
                  Inl err \<Rightarrow> Inl err
                | Inr (n', sameN) \<Rightarrow> Inr (n', andTree sameC sameN)))"
  by (subst Nodes.simps) (auto split: sum.splits TreeIdentity.splits dest: splice_length[rotated])

lemma splice_map:
  assumes "\<And>c. c \<in> set cs \<Longrightarrow> \<exists>sm. h c = Inr (g c, sm) \<and> (sm = SameTree \<longleftrightarrow> g c = c)"
  shows "\<exists>S. splice cs (map h cs) = Inr (map g cs, S) \<and> (S = SameTree \<longleftrightarrow> map g cs = cs)"
  using assms
proof (induction cs)
  case Nil
  then show ?case by simp
next
  case (Cons c cs)
  from Cons.prems [of c] obtain sm where h: "h c = Inr (g c, sm)" "sm = SameTree \<longleftrightarrow> g c = c"
    by auto
  from Cons.IH Cons.prems obtain S where
    s: "splice cs (map h cs) = Inr (map g cs, S)" "S = SameTree \<longleftrightarrow> map g cs = cs"
    by auto
  show ?case using h s by (cases sm; cases S) auto
qed

lemma ExprWithNode_childless: "exprChildren e = [] \<Longrightarrow> ExprWithNode n e f = f n e"
  by (subst ExprWithNode.simps) simp

lemma OneNodeExprsWithNode_other:
  "\<not> isExpressioner n \<Longrightarrow> OneNodeExprsWithNode n f = Inr (n, SameTree)"
  by (simp add: OneNodeExprsWithNode_def)

lemma NodesExprsWithNode_single:
  "exprChildren e = [] \<Longrightarrow>
   NodesExprsWithNode (Unary Filter [e] (Leaf t)) f =
     (case f (Unary Filter [e] (Leaf t)) e of
        Inl err \<Rightarrow> Inl err
      | Inr (e', sm) \<Rightarrow>
          if sm = NewTree then Inr (Unary Filter [e'] (Leaf t), NewTree)
          else Inr (Unary Filter [e] (Leaf t), SameTree))"
  by (simp add: NodesExprsWithNode_def Nodes_Unary Nodes_Leaf OneNodeExprsWithNode_other
      OneNodeExprsWithNode_def ExprWithNode_childless split: sum.splits TreeIdentity.splits)

lemma NodesWithCtxHelper_Leaf:
  "NodesWithCtxHelper \<lparr>Node = Leaf k, Parent = p, ChildNum = i\<rparr> s f
     = f \<lparr>Node = Leaf k, Parent = p, ChildNum = i\<rparr>"
  by (subst NodesWithCtxHelper.simps) simp

lemma NodesWithCtxHelper_Unary:
  "NodesWithCtxHelper \<lparr>Node = Unary k es c, Parent = p, ChildNum = i\<rparr> s f =
     (case (if selects s \<lparr>Node = c, Parent = Some (Unary k es c), ChildNum = 0\<rparr>
            then NodesWithCtxHelper \<lparr>Node = c, Parent = Some (Unary k es c), ChildNum = 0\<rparr> s f
            else Inr (c, SameTree)) of
        Inl err \<Rightarrow> Inl err
      | Inr (c', sameC) \<Rightarrow>
          (case f \<lparr>Node = (if sameC = SameTree then Unary k es c else Unary k es c'),
                   Parent = p, ChildNum = i\<rparr> of
             Inl err \<Rightarrow> Inl err
           | Inr (n', sameN) \<Rightarrow> Inr (n', andTree sameC sameN)))"
  by (subst NodesWithCtxHelper.simps) (auto split: sum.splits TreeIdentity.splits)

lemma upt_2: "[0..<2] = [0, Suc 0]"
  by (simp add: upt_rec numeral_2_eq_2)

lemma NodesWithCtxHelper_Binary:
  "NodesWithCtxHelper \<lparr>Node = Binary k es a b, Parent = p, ChildNum = i\<rparr> s f =
     (case (if selects s \<lparr>Node = a, Parent = Some (Binary k es a b), ChildNum = 0\<rparr>
            then NodesWithCtxHelper \<lparr>Node = a, Parent = Some (Binary k es a b), ChildNum = 0\<rparr> s f
            else Inr (a, SameTree)) of
        Inl err \<Rightarrow> Inl err
      | Inr (a', sameA) \<Rightarrow>
          (case (if selects s \<lparr>Node = b, Parent = Some (Binary k es a b), ChildNum = 1\<rparr>
                 then NodesWithCtxHelper \<lparr>Node = b, Parent = Some (Binary k es a b), ChildNum = 1\<rparr> s f
                 else Inr (b, SameTree)) of
             Inl err \<Rightarrow> Inl err
           | Inr (b', sameB) \<Rightarrow>
               (case f \<lparr>Node = (if andTree sameA sameB = SameTree then Binary k es a b
                                 else Binary k es (if sameA = SameTree then a else a')
                                                  (if sameB = SameTree then b else b')),
                        Parent = p, ChildNum = i\<rparr> of
                  Inl err \<Rightarrow> Inl err
                | Inr (n', sameN) \<Rightarrow> Inr (n', andTree (andTree sameA sameB) sameN))))"
  by (subst NodesWithCtxHelper.simps) (auto simp: upt_2 split: sum.splits TreeIdentity.splits)

lemma NodesWithCtxHelper_Block:
  "NodesWithCtxHelper \<lparr>Node = Block k cs, Parent = p, ChildNum = i\<rparr> s f =
     (if cs = [] then f \<lparr>Node = Block k cs, Parent = p, ChildNum = i\<rparr>
      else case splice cs
             (map (\<lambda>j. if selects s \<lparr>Node = cs ! j, Parent = Some (Block k cs), ChildNum = int j\<rparr>
                        then NodesWithCtxHelper
                               \<lparr>Node = cs ! j, Parent = Some (Block k cs), ChildNum = int j\<rparr> s f
                        else Inr (cs ! j, SameTree)) [0..<length cs]) of
             Inl err \<Rightarrow> Inl err
           | Inr (cs', sameC) \<Rightarrow>
               (case f \<lparr>Node = (if sameC = SameTree then Block k cs else Block k cs'),
                        Parent = p, ChildNum = i\<rparr> of
                  Inl err \<Rightarrow> Inl err
                | Inr (n', sameN) \<Rightarrow> Inr (n', andTree sameC sameN)))"
  by (subst NodesWithCtxHelper.simps)
     (auto split: sum.splits TreeIdentity.splits dest: splice_length[rotated] cong: if_cong)

lemma splice_results:
  assumes "length cs = length rs" "length rs = length gs"
    and "\<And>j. j < length cs \<Longrightarrow> \<exists>sm. rs ! j = Inr (gs ! j, sm) \<and> (sm = SameTree \<longrightarrow> gs ! j = cs ! j)"
  shows "\<exists>S. splice cs rs = Inr (gs, S) \<and> (S = SameTree \<longrightarrow> gs = cs)"
  using assms
proof (induction cs rs gs rule: list_induct3)
  case Nil
  then show ?case by simp
next
  case (Cons c cs r rs g gs)
  from Cons.prems [of 0] obtain sm where h: "r = Inr (g, sm)" "sm = SameTree \<longrightarrow> g = c"
    by auto
  have "\<exists>sm. rs ! j = Inr (gs ! j, sm) \<and> (sm = SameTree \<longrightarrow> gs ! j = cs ! j)"
    if "j < length cs" for j
    using Cons.prems [of "Suc j"] that by simp
  with Cons.IH obtain S where s: "splice cs rs = Inr (gs, S)" "S = SameTree \<longrightarrow> gs = cs"
    by blast
  show ?case using h s by (cases sm; cases S) auto
qed

section \<open>Properties of the cacheability analysis\<close>

lemma fold_Inspect_flag:
  assumes "\<And>e c. e \<in> set es \<Longrightarrow> Inspect v e c = (c \<and> P e)"
  shows "fold (Inspect v) es c = (c \<and> (\<forall>e \<in> set es. P e))"
  using assms by (induction es arbitrary: c) auto

lemma Inspect_cacheable:
  "Inspect (\<lambda>e cacheable.
        if isGetField e \<and> Index e < i then (False, False)
        else if nonDet e then (False, False)
        else (True, cacheable)) e c
   = (c \<and> (\<forall>s \<in> set (subexprs e). (\<forall>j. s = GetField j \<longrightarrow> i \<le> j) \<and> \<not> nonDet s))"
proof (induction e arbitrary: c rule: subexprs.induct)
  case (1 e)
  let ?v = "\<lambda>e cacheable.
        if isGetField e \<and> Index e < i then (False, False)
        else if nonDet e then (False, False)
        else (True, cacheable)"
  let ?ok = "\<lambda>s. (\<forall>j. s = GetField j \<longrightarrow> i \<le> j) \<and> \<not> nonDet s"
  have kids: "fold (Inspect ?v) (exprChildren e) c' =
      (c' \<and> (\<forall>x \<in> set (exprChildren e). \<forall>s \<in> set (subexprs x). ?ok s))" for c'
    by (rule fold_Inspect_flag) (rule 1)
  have top: "?ok e \<longleftrightarrow> \<not> (isGetField e \<and> Index e < i) \<and> \<not> nonDet e"
    by (cases e) auto
  show ?case
    apply (subst Inspect.simps)
    apply (subst subexprs.simps)
    using top by (auto simp: kids)
qed

lemma exprIsCacheable_subexprs:
  "exprIsCacheable nonDet e i \<longleftrightarrow>
   (\<forall>s \<in> set (subexprs e). (\<forall>j. s = GetField j \<longrightarrow> i \<le> j) \<and> \<not> nonDet s)"
  unfolding exprIsCacheable_def by (simp add: Inspect_cacheable)

lemma fold_InspectNodes_flag:
  assumes "\<And>n c. n \<in> set ns \<Longrightarrow> InspectNodes v n c = (c \<and> P n)"
  shows "fold (InspectNodes v) ns c = (c \<and> (\<forall>n \<in> set ns. P n))"
  using assms by (induction ns arbitrary: c) auto

lemma InspectNodes_cacheable:
  "InspectNodes (\<lambda>node cacheable.
        if isExpressioner node then
          (if \<exists>expr \<in> set (Expressions node). \<not> exprIsCacheable nonDet expr i
           then (False, False) else (True, cacheable))
        else if isSubqueryAlias node then (False, cacheable)
        else (True, cacheable)) n c
   = (c \<and> (\<forall>e \<in> set (inspectedExprs n). exprIsCacheable nonDet e i))"
proof (induction n arbitrary: c rule: inspectedExprs.induct)
  case (1 n)
  let ?v = "\<lambda>node cacheable.
        if isExpressioner node then
          (if \<exists>expr \<in> set (Expressions node). \<not> exprIsCacheable nonDet expr i
           then (False, False) else (True, cacheable))
        else if isSubqueryAlias node then (False, cacheable)
        else (True, cacheable)"
  show ?case
  proof (cases "isExpressioner n")
    case True
    have kids: "fold (InspectNodes ?v) (Children n) c' =
      (c' \<and> (\<forall>x \<in> set (Children n). \<forall>e \<in> set (inspectedExprs x). exprIsCacheable nonDet e i))"
      for c'
      by (rule fold_InspectNodes_flag) (rule 1(1)[OF True])
    show ?thesis
      apply (subst InspectNodes.simps)
      apply (subst inspectedExprs.simps)
      using True by (auto simp: kids)
  next
    case False
    show ?thesis
    proof (cases "isSubqueryAlias n")
      case True
      show ?thesis
        apply (subst InspectNodes.simps)
        apply (subst inspectedExprs.simps)
        using True False by auto
    next
      case notSA: False
      have kids: "fold (InspectNodes ?v) (Children n) c' =
        (c' \<and> (\<forall>x \<in> set (Children n). \<forall>e \<in> set (inspectedExprs x). exprIsCacheable nonDet e i))"
        for c'
        by (rule fold_InspectNodes_flag) (rule 1(2)[OF False notSA])
      show ?thesis
        apply (subst InspectNodes.simps)
        apply (subst inspectedExprs.simps)
        using False notSA by (auto simp: kids)
    qed
  qed
qed

lemma nodeIsCacheable_inspectedExprs:
  "nodeIsCacheable nonDet q w \<longleftrightarrow> (\<forall>e \<in> set (inspectedExprs q). exprIsCacheable nonDet e w)"
  unfolding nodeIsCacheable_def by (simp add: InspectNodes_cacheable)

text \<open>
  C2, as amended. \<^verbatim>\<open>exprIsCacheable(e, i)\<close> is true iff every column reference among
  the sub-expressions of \<open>e\<close> has an index of at least \<open>i\<close> and no sub-expression of
  \<open>e\<close> reports itself non-deterministic. A plan is cacheable iff this holds of every
  expression that the walk inspects, which are the expressions of the plan that are not
  below a subquery alias; a resolved subquery expression is marked as cacheable exactly
  when its plan is, at the width of the enclosing scope. So a column reference below
  that width makes the plan not cacheable when it stands in an inspected expression;
  one below a subquery alias, or in the plan of a nested subquery expression, is not
  looked at.
\<close>

theorem exprIsCacheable_iff:
  "(exprIsCacheable nonDet e i \<longleftrightarrow>
      (\<forall>s \<in> set (subexprs e). (\<forall>j. s = GetField j \<longrightarrow> i \<le> j) \<and> \<not> nonDet s))
   \<and> (nodeIsCacheable nonDet q w \<longleftrightarrow>
      (\<forall>x \<in> set (inspectedExprs q). \<forall>s \<in> set (subexprs x).
          (\<forall>j. s = GetField j \<longrightarrow> w \<le> j) \<and> \<not> nonDet s))
   \<and> (exprResolved (Subquery q c) \<longrightarrow>
        cacheSubqueryResultsVisit nonDet width scope n (Subquery q c) =
          (if \<forall>x \<in> set (inspectedExprs q). \<forall>s \<in> set (subexprs x).
                (\<forall>j. s = GetField j \<longrightarrow> SchemaLen width (newScope scope n) \<le> j) \<and> \<not> nonDet s
           then Inr (Subquery q True, NewTree)
           else Inr (Subquery q c, SameTree)))
   \<and> (x \<in> set (inspectedExprs q) \<and> GetField k \<in> set (subexprs x) \<and> k < w \<longrightarrow>
        \<not> nodeIsCacheable nonDet q w)
   \<and> (isSubqueryAlias q \<longrightarrow> nodeIsCacheable nonDet q w)"
proof -
  have a: "exprIsCacheable nonDet e i \<longleftrightarrow>
      (\<forall>s \<in> set (subexprs e). (\<forall>j. s = GetField j \<longrightarrow> i \<le> j) \<and> \<not> nonDet s)"
    by (rule exprIsCacheable_subexprs)
  have b: "nodeIsCacheable nonDet q' w' \<longleftrightarrow>
      (\<forall>x \<in> set (inspectedExprs q'). \<forall>s \<in> set (subexprs x).
          (\<forall>j. s = GetField j \<longrightarrow> w' \<le> j) \<and> \<not> nonDet s)" for q' w'
    by (simp add: nodeIsCacheable_inspectedExprs exprIsCacheable_subexprs)
  have c: "exprResolved (Subquery q c) \<longrightarrow>
        cacheSubqueryResultsVisit nonDet width scope n (Subquery q c) =
          (if \<forall>x \<in> set (inspectedExprs q). \<forall>s \<in> set (subexprs x).
                (\<forall>j. s = GetField j \<longrightarrow> SchemaLen width (newScope scope n) \<le> j) \<and> \<not> nonDet s
           then Inr (Subquery q True, NewTree)
           else Inr (Subquery q c, SameTree))"
    unfolding cacheSubqueryResultsVisit_def Let_def b by auto
  have d: "x \<in> set (inspectedExprs q) \<and> GetField k \<in> set (subexprs x) \<and> k < w \<longrightarrow>
        \<not> nodeIsCacheable nonDet q w"
    unfolding b by fastforce
  have "inspectedExprs q = []" if "isSubqueryAlias q"
  proof -
    from that have "\<not> isExpressioner q"
      by (cases q rule: isSubqueryAlias.cases) simp_all
    with that show ?thesis by (subst inspectedExprs.simps) simp
  qed
  then have f: "isSubqueryAlias q \<longrightarrow> nodeIsCacheable nonDet q w"
    unfolding b by simp
  show ?thesis using a b [of q w] c d f by blast
qed

text \<open>
  With a scope of two outer columns: a subquery whose plan projects column 2 is marked;
  the same plan with a reference to column 1 added to the projection is not; a plan
  that is a subquery alias is cacheable whatever stands below it.
\<close>

theorem exprIsCacheable_iff_witness:
  "exprIsCacheable (\<lambda>e. False) (FunctionCall ''plus'' ScalarFunction [GetField 2, Literal 1] None) 2
   \<and> \<not> exprIsCacheable (\<lambda>e. False) (FunctionCall ''plus'' ScalarFunction [GetField 2, GetField 1] None) 2
   \<and> cacheSubqueryResultsVisit (\<lambda>e. False) (\<lambda>n. 2) None (Leaf (ResolvedTable ''t''))
        (Subquery (Unary Project [GetField 2] (Leaf (ResolvedTable ''u''))) False)
      = Inr (Subquery (Unary Project [GetField 2] (Leaf (ResolvedTable ''u''))) True, NewTree)
   \<and> cacheSubqueryResultsVisit (\<lambda>e. False) (\<lambda>n. 2) None (Leaf (ResolvedTable ''t''))
        (Subquery (Unary Project [GetField 1, GetField 2] (Leaf (ResolvedTable ''u''))) False)
      = Inr (Subquery (Unary Project [GetField 1, GetField 2] (Leaf (ResolvedTable ''u''))) False,
             SameTree)
   \<and> GetField 1 \<in> set (inspectedExprs (Unary Project [GetField 1, GetField 2] (Leaf (ResolvedTable ''u''))))
   \<and> GetField 1 \<in> set (subexprs (GetField 1))
   \<and> \<not> nodeIsCacheable (\<lambda>e. False) (Unary Project [GetField 1, GetField 2] (Leaf (ResolvedTable ''u''))) 2
   \<and> isSubqueryAlias (Unary (SubqueryAlias ''s'' []) [] (Unary Project [GetField 1] (Leaf (ResolvedTable ''u''))))
   \<and> nodeIsCacheable (\<lambda>e. False)
        (Unary (SubqueryAlias ''s'' []) [] (Unary Project [GetField 1] (Leaf (ResolvedTable ''u'')))) 2"
proof -
  let ?nd = "\<lambda>e::expr. False"
  let ?t = "Leaf (ResolvedTable ''t'')"
  let ?q1 = "Unary Project [GetField 2] (Leaf (ResolvedTable ''u''))"
  let ?q2 = "Unary Project [GetField 1, GetField 2] (Leaf (ResolvedTable ''u''))"
  have w: "SchemaLen (\<lambda>n. 2) (newScope None ?t) = 2"
    by (simp add: SchemaLen_def newScope_def)
  have p1: "inspectedExprs ?q1 = [GetField 2]"
    by (simp add: inspectedExprs.simps)
  have p2: "inspectedExprs ?q2 = [GetField 1, GetField 2]"
    by (simp add: inspectedExprs.simps)
  have 1: "exprIsCacheable ?nd (FunctionCall ''plus'' ScalarFunction [GetField 2, Literal 1] None) 2"
    using exprIsCacheable_iff [of ?nd "FunctionCall ''plus'' ScalarFunction [GetField 2, Literal 1] None" 2,
        THEN conjunct1]
    by (simp add: subexprs.simps)
  have 2: "\<not> exprIsCacheable ?nd (FunctionCall ''plus'' ScalarFunction [GetField 2, GetField 1] None) 2"
    using exprIsCacheable_iff [of ?nd "FunctionCall ''plus'' ScalarFunction [GetField 2, GetField 1] None" 2,
        THEN conjunct1]
    by (simp add: subexprs.simps)
  have s1: "subexprs (GetField 1) = [GetField 1]" "subexprs (GetField 2) = [GetField 2]"
    by (simp_all add: subexprs.simps)
  have 3: "cacheSubqueryResultsVisit ?nd (\<lambda>n. 2) None ?t (Subquery ?q1 False)
      = Inr (Subquery ?q1 True, NewTree)"
    using exprIsCacheable_iff [where q = ?q1 and c = False and nonDet = ?nd and width = "\<lambda>n. 2"
        and scope = None and n = ?t, THEN conjunct2, THEN conjunct2, THEN conjunct1]
    by (simp add: w p1 s1)
  have 4: "cacheSubqueryResultsVisit ?nd (\<lambda>n. 2) None ?t (Subquery ?q2 False)
      = Inr (Subquery ?q2 False, SameTree)"
    using exprIsCacheable_iff [where q = ?q2 and c = False and nonDet = ?nd and width = "\<lambda>n. 2"
        and scope = None and n = ?t, THEN conjunct2, THEN conjunct2, THEN conjunct1]
    by (simp add: w p2 s1)
  have 5: "GetField 1 \<in> set (inspectedExprs ?q2)" "GetField 1 \<in> set (subexprs (GetField 1))"
    by (simp_all add: p2 s1)
  have 6: "\<not> nodeIsCacheable ?nd ?q2 2"
    using exprIsCacheable_iff [where q = ?q2 and nonDet = ?nd and x = "GetField 1" and k = 1
        and w = 2, THEN conjunct2, THEN conjunct2, THEN conjunct2, THEN conjunct1] 5
    by simp
  let ?sa = "Unary (SubqueryAlias ''s'' []) [] (Unary Project [GetField 1] (Leaf (ResolvedTable ''u'')))"
  have 7: "isSubqueryAlias ?sa" by simp
  have 8: "nodeIsCacheable ?nd ?sa 2"
    using exprIsCacheable_iff [where q = ?sa and nonDet = ?nd and w = 2,
        THEN conjunct2, THEN conjunct2, THEN conjunct2, THEN conjunct2] 7
    by blast
  show ?thesis using 1 2 3 4 5 6 7 8 by blast
qed

text \<open>
  C2 as stated fails: under a scope of two outer columns, a plan that refers to column 0
  below a subquery alias is cacheable all the same, and the subquery expression is
  marked.
\<close>

theorem cacheable_with_outer_reference_below_alias:
  "cacheSubqueryResultsVisit (\<lambda>e. False) (\<lambda>n. 2) None (Leaf (ResolvedTable ''t''))
     (Subquery
        (Unary Project [GetField 2]
           (Unary (SubqueryAlias ''s'' []) []
              (Unary Project [GetField 0] (Leaf (ResolvedTable ''u'')))))
        False)
   = Inr (Subquery
        (Unary Project [GetField 2]
           (Unary (SubqueryAlias ''s'' []) []
              (Unary Project [GetField 0] (Leaf (ResolvedTable ''u'')))))
        True, NewTree)
   \<and> (0::int) < SchemaLen (\<lambda>n. 2) (newScope None (Leaf (ResolvedTable ''t'')))"
proof -
  let ?q = "Unary Project [GetField 2]
           (Unary (SubqueryAlias ''s'' []) []
              (Unary Project [GetField 0] (Leaf (ResolvedTable ''u''))))"
  have w: "SchemaLen (\<lambda>n. 2) (newScope None (Leaf (ResolvedTable ''t''))) = 2"
    by (simp add: SchemaLen_def newScope_def)
  have p: "inspectedExprs ?q = [GetField 2]"
    by (simp add: inspectedExprs.simps)
  have s2: "subexprs (GetField 2) = [GetField 2]"
    by (simp add: subexprs.simps)
  have "exprIsCacheable (\<lambda>e. False) (GetField 2) 2"
    unfolding exprIsCacheable_subexprs s2 by simp
  then have "nodeIsCacheable (\<lambda>e. False) ?q 2"
    unfolding nodeIsCacheable_inspectedExprs p by simp
  then show ?thesis
    by (simp add: cacheSubqueryResultsVisit_def w)
qed

section \<open>Properties of function resolution\<close>





lemma exprWithChildren_UnresolvedFunction:
  "length cs = length args \<Longrightarrow>
   exprWithChildren (UnresolvedFunction name args w) cs = Inr (UnresolvedFunction name cs w)"
  by simp

















section \<open>Properties of the subquery rules\<close>

lemma resolveSubqueriesVisit_scope_None:
  "resolveSubqueriesVisit sl (a\<lparr>analyzeThroughBatch := \<lambda>c s b. analyzeThroughBatch a c None b\<rparr>)
   = resolveSubqueriesVisit sl a"
proof
  fix n
  show "resolveSubqueriesVisit sl (a\<lparr>analyzeThroughBatch := \<lambda>c s b. analyzeThroughBatch a c None b\<rparr>) n
        = resolveSubqueriesVisit sl a n"
    by (cases "(sl, a, n)" rule: resolveSubqueriesVisit.cases) simp_all
qed

lemma finalizeSubqueriesVisit_scope_None:
  "finalizeSubqueriesVisit sl (a\<lparr>analyzeStartingAtBatch := \<lambda>c s b. analyzeStartingAtBatch a c None b\<rparr>)
   = finalizeSubqueriesVisit sl a"
proof
  fix n
  show "finalizeSubqueriesVisit sl (a\<lparr>analyzeStartingAtBatch := \<lambda>c s b. analyzeStartingAtBatch a c None b\<rparr>) n
        = finalizeSubqueriesVisit sl a n"
    by (cases "(sl, a, n)" rule: finalizeSubqueriesVisit.cases) simp_all
qed

text \<open>
  C4. \<^verbatim>\<open>resolveSubqueries\<close> and \<^verbatim>\<open>finalizeSubqueries\<close> analyse the child of every
  subquery alias with no scope, whatever the scope of the enclosing analysis: their
  result does not depend on their own scope, and it is the result obtained from an
  analyzer that answers every request as it answers the one with no scope. Hence an
  analysis that fails without a scope (an outer column that cannot be found) fails the
  rule at that subquery alias.
\<close>

theorem subquery_alias_scope_opaque:
  "resolveSubqueries sl a n scope =
     resolveSubqueries sl (a\<lparr>analyzeThroughBatch := \<lambda>c s b. analyzeThroughBatch a c None b\<rparr>) n scope'
   \<and> finalizeSubqueries sl a n scope =
     finalizeSubqueries sl (a\<lparr>analyzeStartingAtBatch := \<lambda>c s b. analyzeStartingAtBatch a c None b\<rparr>) n scope'
   \<and> (analysisErr (analyzeThroughBatch a child None ''default-rules'') = Some e \<longrightarrow>
        resolveSubqueriesVisit sl a (Unary (SubqueryAlias name cols) es child) = Inl e)
   \<and> (analysisErr (analyzeStartingAtBatch a child None ''default-rules'') = Some e \<longrightarrow>
        finalizeSubqueriesVisit sl a (Unary (SubqueryAlias name cols) es child) = Inl e)"
  by (simp add: resolveSubqueries_def finalizeSubqueries_def resolveSubqueriesVisit_scope_None
      finalizeSubqueriesVisit_scope_None)

text \<open>
  An analysis that finds the column \<open>x\<close> only in an outer scope: although the enclosing
  scope is not empty, both rules fail at the subquery alias.
\<close>

theorem subquery_alias_scope_opaque_witness:
  "analysisErr (analyzeThroughBatch outerColumnAnalyzer (Leaf (ResolvedTable ''t'')) None ''default-rules'')
     = Some (ErrColumnNotFound ''x'')
   \<and> resolveSubqueriesVisit (\<lambda>n. 0) outerColumnAnalyzer (Unary (SubqueryAlias ''s'' []) [] (Leaf (ResolvedTable ''t''))) = Inl (ErrColumnNotFound ''x'')
   \<and> analysisErr (analyzeStartingAtBatch outerColumnAnalyzer (Leaf (ResolvedTable ''t'')) None ''default-rules'')
     = Some (ErrColumnNotFound ''x'')
   \<and> finalizeSubqueriesVisit (\<lambda>n. 0) outerColumnAnalyzer (Unary (SubqueryAlias ''s'' []) [] (Leaf (ResolvedTable ''t''))) = Inl (ErrColumnNotFound ''x'')
   \<and> resolveSubqueries (\<lambda>n. 0) outerColumnAnalyzer (Unary (SubqueryAlias ''s'' []) [] (Leaf (ResolvedTable ''t''))) (Some (Scope None (Leaf (ResolvedTable ''o''))))
     = Inl (ErrColumnNotFound ''x'')
   \<and> analysisErr (analyzeThroughBatch outerColumnAnalyzer (Leaf (ResolvedTable ''t'')) (Some (Scope None (Leaf (ResolvedTable ''o'')))) ''default-rules'') = None"
proof -
  have e1: "analysisErr (analyzeThroughBatch outerColumnAnalyzer (Leaf (ResolvedTable ''t'')) None ''default-rules'')
     = Some (ErrColumnNotFound ''x'')"
    by (simp add: outerColumnAnalyzer_def outerColumnAnalysis_def)
  have e2: "analysisErr (analyzeStartingAtBatch outerColumnAnalyzer (Leaf (ResolvedTable ''t'')) None ''default-rules'')
     = Some (ErrColumnNotFound ''x'')"
    by (simp add: outerColumnAnalyzer_def outerColumnAnalysis_def)
  have e3: "analysisErr (analyzeThroughBatch outerColumnAnalyzer (Leaf (ResolvedTable ''t'')) (Some (Scope None (Leaf (ResolvedTable ''o'')))) ''default-rules'') = None"
    by (simp add: outerColumnAnalyzer_def outerColumnAnalysis_def)
  note inst = subquery_alias_scope_opaque [where sl = "\<lambda>n. 0" and a = outerColumnAnalyzer
      and child = "Leaf (ResolvedTable ''t'')" and e = "ErrColumnNotFound ''x''"
      and name = "''s''" and cols = "[]" and es = "[]"]
  have v1: "resolveSubqueriesVisit (\<lambda>n. 0) outerColumnAnalyzer (Unary (SubqueryAlias ''s'' []) [] (Leaf (ResolvedTable ''t''))) = Inl (ErrColumnNotFound ''x'')"
    using inst e1 by blast
  have v2: "finalizeSubqueriesVisit (\<lambda>n. 0) outerColumnAnalyzer (Unary (SubqueryAlias ''s'' []) [] (Leaf (ResolvedTable ''t''))) = Inl (ErrColumnNotFound ''x'')"
    using inst e2 by blast
  have r: "resolveSubqueries (\<lambda>n. 0) outerColumnAnalyzer (Unary (SubqueryAlias ''s'' []) [] (Leaf (ResolvedTable ''t''))) (Some (Scope None (Leaf (ResolvedTable ''o''))))
     = Inl (ErrColumnNotFound ''x'')"
    by (simp add: resolveSubqueries_def Nodes_Unary Nodes_Leaf Let_def outerColumnAnalyzer_def
        outerColumnAnalysis_def)
  show ?thesis using e1 e2 e3 v1 v2 r by blast
qed

text \<open>
  C6, as amended. At a subquery alias whose child was analysed without error, the
  visitor of \<^verbatim>\<open>resolveSubqueries\<close> (and that of \<^verbatim>\<open>finalizeSubqueries\<close>) fails with
  \<^verbatim>\<open>ErrColumnCountMismatch\<close> iff the alias list is not empty and \<^verbatim>\<open>schemaLength\<close> of
  the child differs from its length; otherwise it returns a tree. When the analysis of
  the child fails, the visitor returns that error and does not check the column count.
\<close>

theorem column_count_checked_after_analysis:
  "(analysisErr (analyzeThroughBatch a child None ''default-rules'') = None \<longrightarrow>
      (resolveSubqueriesVisit sl a (Unary (SubqueryAlias name cols) es child) = Inl ErrColumnCountMismatch
         \<longleftrightarrow> cols \<noteq> [] \<and> sl child \<noteq> length cols)
      \<and> (cols = [] \<or> sl child = length cols \<longrightarrow>
           (\<exists>t i. resolveSubqueriesVisit sl a (Unary (SubqueryAlias name cols) es child) = Inr (t, i))))
   \<and> (analysisErr (analyzeStartingAtBatch a child None ''default-rules'') = None \<longrightarrow>
      (finalizeSubqueriesVisit sl a (Unary (SubqueryAlias name cols) es child) = Inl ErrColumnCountMismatch
         \<longleftrightarrow> cols \<noteq> [] \<and> sl child \<noteq> length cols)
      \<and> (cols = [] \<or> sl child = length cols \<longrightarrow>
           (\<exists>t i. finalizeSubqueriesVisit sl a (Unary (SubqueryAlias name cols) es child) = Inr (t, i))))
   \<and> (analysisErr (analyzeThroughBatch a child None ''default-rules'') = Some e \<longrightarrow>
        resolveSubqueriesVisit sl a (Unary (SubqueryAlias name cols) es child) = Inl e)
   \<and> (analysisErr (analyzeStartingAtBatch a child None ''default-rules'') = Some e \<longrightarrow>
        finalizeSubqueriesVisit sl a (Unary (SubqueryAlias name cols) es child) = Inl e)"
  by (auto simp: Let_def)

text \<open>
  One alias over a child of two columns is refused, two aliases are accepted.
\<close>

theorem column_count_checked_after_analysis_witness:
  "analysisErr (analyzeThroughBatch idleAnalyzer (Leaf (ResolvedTable ''t'')) None ''default-rules'') = None
   \<and> resolveSubqueriesVisit (\<lambda>n. 2) idleAnalyzer (Unary (SubqueryAlias ''s'' [''x'']) [] (Leaf (ResolvedTable ''t''))) = Inl ErrColumnCountMismatch
   \<and> resolveSubqueriesVisit (\<lambda>n. 2) idleAnalyzer (Unary (SubqueryAlias ''s'' [''x'', ''y'']) [] (Leaf (ResolvedTable ''t''))) = Inr ((Unary (SubqueryAlias ''s'' [''x'', ''y'']) [] (Leaf (ResolvedTable ''t''))), SameTree)
   \<and> analysisErr (analyzeStartingAtBatch idleAnalyzer (Leaf (ResolvedTable ''t'')) None ''default-rules'') = None
   \<and> finalizeSubqueriesVisit (\<lambda>n. 2) idleAnalyzer (Unary (SubqueryAlias ''s'' [''x'']) [] (Leaf (ResolvedTable ''t''))) = Inl ErrColumnCountMismatch
   \<and> finalizeSubqueriesVisit (\<lambda>n. 2) idleAnalyzer (Unary (SubqueryAlias ''s'' [''x'', ''y'']) [] (Leaf (ResolvedTable ''t''))) = Inr ((Unary (SubqueryAlias ''s'' [''x'', ''y'']) [] (Leaf (ResolvedTable ''t''))), SameTree)
   \<and> analysisErr (analyzeThroughBatch (failingAnalyzer (ErrColumnNotFound ''a'')) (Leaf (ResolvedTable ''t'')) None
         ''default-rules'') = Some (ErrColumnNotFound ''a'')
   \<and> resolveSubqueriesVisit (\<lambda>n. 2) (failingAnalyzer (ErrColumnNotFound ''a'')) (Unary (SubqueryAlias ''s'' [''x'']) [] (Leaf (ResolvedTable ''t'')))
       = Inl (ErrColumnNotFound ''a'')"
proof -
  have ok1: "analysisErr (analyzeThroughBatch idleAnalyzer (Leaf (ResolvedTable ''t'')) None ''default-rules'') = None"
    by (simp add: idleAnalyzer_def)
  have ok2: "analysisErr (analyzeStartingAtBatch idleAnalyzer (Leaf (ResolvedTable ''t'')) None ''default-rules'') = None"
    by (simp add: idleAnalyzer_def)
  have bad: "analysisErr (analyzeThroughBatch (failingAnalyzer (ErrColumnNotFound ''a'')) (Leaf (ResolvedTable ''t'')) None
         ''default-rules'') = Some (ErrColumnNotFound ''a'')"
    by (simp add: failingAnalyzer_def)
  note one = column_count_checked_after_analysis [where a = idleAnalyzer
      and child = "Leaf (ResolvedTable ''t'')" and sl = "\<lambda>n. 2" and name = "''s''"
      and cols = "[''x'']" and es = "[]"]
  have a1: "resolveSubqueriesVisit (\<lambda>n. 2) idleAnalyzer (Unary (SubqueryAlias ''s'' [''x'']) [] (Leaf (ResolvedTable ''t''))) = Inl ErrColumnCountMismatch"
    using one ok1 by simp
  have b1: "finalizeSubqueriesVisit (\<lambda>n. 2) idleAnalyzer (Unary (SubqueryAlias ''s'' [''x'']) [] (Leaf (ResolvedTable ''t''))) = Inl ErrColumnCountMismatch"
    using one ok2 by simp
  have a2: "resolveSubqueriesVisit (\<lambda>n. 2) idleAnalyzer (Unary (SubqueryAlias ''s'' [''x'', ''y'']) [] (Leaf (ResolvedTable ''t''))) = Inr ((Unary (SubqueryAlias ''s'' [''x'', ''y'']) [] (Leaf (ResolvedTable ''t''))), SameTree)"
    by (simp add: idleAnalyzer_def)
  have b2: "finalizeSubqueriesVisit (\<lambda>n. 2) idleAnalyzer (Unary (SubqueryAlias ''s'' [''x'', ''y'']) [] (Leaf (ResolvedTable ''t''))) = Inr ((Unary (SubqueryAlias ''s'' [''x'', ''y'']) [] (Leaf (ResolvedTable ''t''))), SameTree)"
    by (simp add: idleAnalyzer_def)
  have c: "resolveSubqueriesVisit (\<lambda>n. 2) (failingAnalyzer (ErrColumnNotFound ''a'')) (Unary (SubqueryAlias ''s'' [''x'']) [] (Leaf (ResolvedTable ''t'')))
       = Inl (ErrColumnNotFound ''a'')"
    using column_count_checked_after_analysis [where a = "failingAnalyzer (ErrColumnNotFound ''a'')"
        and child = "Leaf (ResolvedTable ''t'')" and sl = "\<lambda>n. 2" and name = "''s''"
        and cols = "[''x'']" and es = "[]" and e = "ErrColumnNotFound ''a''"] bad
    by blast
  show ?thesis using ok1 ok2 bad a1 b1 a2 b2 c by blast
qed

text \<open>
  C6 as stated fails: one alias over a child of two columns, but the analysis of the
  child fails; the rule fails with the error of the analysis, not with
  \<^verbatim>\<open>ErrColumnCountMismatch\<close>.
\<close>

theorem column_count_mismatch_not_reported:
  "resolveSubqueries (\<lambda>n. 2) (failingAnalyzer (ErrColumnNotFound ''a'')) (Unary (SubqueryAlias ''s'' [''x'']) [] (Leaf (ResolvedTable ''t''))) None
     = Inl (ErrColumnNotFound ''a'')
   \<and> (2::nat) \<noteq> length [''x'']
   \<and> resolveSubqueries (\<lambda>n. 2) (failingAnalyzer (ErrColumnNotFound ''a'')) (Unary (SubqueryAlias ''s'' [''x'']) [] (Leaf (ResolvedTable ''t''))) None
     \<noteq> Inl ErrColumnCountMismatch"
  by (simp add: resolveSubqueries_def Nodes_Unary Nodes_Leaf failingAnalyzer_def)

text \<open>
  What \<^verbatim>\<open>resolveSubqueryExpressions\<close> does with an error of the recursive analysis.
  At a deferred error (unresolved column, unresolved table column, validation not
  resolved) the visitor returns no error, the subquery with the partially analysed plan
  and the change identity that the analysis reported; with any other error it returns
  that error. For a filter on one subquery the rule then fails with that error, or, for
  a deferred error of an analysis that reports \<^verbatim>\<open>SameTree\<close> only for an unchanged
  plan, returns the filter on the subquery with the partially analysed plan.
\<close>

lemma resolveSubqueryExpressions_defers:
  "(let r = analyzeWithSelector a q (newScope scope n) analyzeAll in
      (\<forall>e. analysisErr r = Some e \<and> isDeferred e \<longrightarrow>
         resolveSubqueryExpressionsVisit a scope n (Subquery q c)
           = Inr (Subquery (analyzedNode r) c, sameTree r))
      \<and> (\<forall>e. analysisErr r = Some e \<and> \<not> isDeferred e \<longrightarrow>
         resolveSubqueryExpressionsVisit a scope n (Subquery q c) = Inl e))
   \<and> (let m = Unary Filter [Subquery q c] (Leaf t);
           r = analyzeWithSelector a q (newScope scope m) analyzeAll in
      (\<forall>e. analysisErr r = Some e \<and> \<not> isDeferred e \<longrightarrow>
         resolveSubqueryExpressions a m scope = Inl e)
      \<and> (\<forall>e. analysisErr r = Some e \<and> isDeferred e
              \<and> (sameTree r = SameTree \<longrightarrow> analyzedNode r = q) \<longrightarrow>
         (\<exists>i. resolveSubqueryExpressions a m scope
               = Inr (Unary Filter [Subquery (analyzedNode r) c] (Leaf t), i))))"
proof -
  have visit: "let r = analyzeWithSelector a q (newScope scope n) analyzeAll in
      (\<forall>e. analysisErr r = Some e \<and> isDeferred e \<longrightarrow>
         resolveSubqueryExpressionsVisit a scope n (Subquery q c)
           = Inr (Subquery (analyzedNode r) c, sameTree r))
      \<and> (\<forall>e. analysisErr r = Some e \<and> \<not> isDeferred e \<longrightarrow>
         resolveSubqueryExpressionsVisit a scope n (Subquery q c) = Inl e)" for n
    by (auto simp: Let_def)
  let ?m = "Unary Filter [Subquery q c] (Leaf t)"
  let ?r = "analyzeWithSelector a q (newScope scope ?m) analyzeAll"
  have rule1: "resolveSubqueryExpressions a ?m scope = Inl e"
    if "analysisErr ?r = Some e" "\<not> isDeferred e" for e
    using that
    by (simp add: resolveSubqueryExpressions_def NodesExprsWithNode_single Let_def)
  have rule2: "\<exists>i. resolveSubqueryExpressions a ?m scope
               = Inr (Unary Filter [Subquery (analyzedNode ?r) c] (Leaf t), i)"
    if "analysisErr ?r = Some e" "isDeferred e" "sameTree ?r = SameTree \<longrightarrow> analyzedNode ?r = q"
    for e
    using that
    by (cases "sameTree ?r")
       (auto simp: resolveSubqueryExpressions_def NodesExprsWithNode_single Let_def nodesEqual_def)
  show ?thesis
    using visit [of n] rule1 rule2 unfolding Let_def by blast
qed

text \<open>
  An analysis that fails with an unresolved column leaves the filter in place without
  an error; one that fails with another error aborts the rule.
\<close>

lemma resolveSubqueryExpressions_defers_example:
  "resolveSubqueryExpressionsVisit (failingAnalyzer (ErrColumnNotFound ''x'')) None (Leaf (ResolvedTable ''t'')) (Subquery (Leaf (ResolvedTable ''t'')) False)
     = Inr (Subquery (Leaf (ResolvedTable ''t'')) False, SameTree)
   \<and> resolveSubqueryExpressions (failingAnalyzer (ErrColumnNotFound ''x''))
        (Unary Filter [Subquery (Leaf (ResolvedTable ''t'')) False] (Leaf (ResolvedTable ''t''))) None
     = Inr (Unary Filter [Subquery (Leaf (ResolvedTable ''t'')) False] (Leaf (ResolvedTable ''t'')), SameTree)
   \<and> resolveSubqueryExpressionsVisit (failingAnalyzer (ErrOther ''cancelled'')) None (Leaf (ResolvedTable ''t'')) (Subquery (Leaf (ResolvedTable ''t'')) False)
     = Inl (ErrOther ''cancelled'')
   \<and> resolveSubqueryExpressions (failingAnalyzer (ErrOther ''cancelled''))
        (Unary Filter [Subquery (Leaf (ResolvedTable ''t'')) False] (Leaf (ResolvedTable ''t''))) None
     = Inl (ErrOther ''cancelled'')"
proof -
  let ?d = "failingAnalyzer (ErrColumnNotFound ''x'')"
  let ?f = "failingAnalyzer (ErrOther ''cancelled'')"
  have r: "analyzeWithSelector (failingAnalyzer e) q s b
      = \<lparr>analyzedNode = q, sameTree = SameTree, analysisErr = Some e\<rparr>" for e q s b
    by (simp add: failingAnalyzer_def)
  note d = resolveSubqueryExpressions_defers [where a = ?d and q = "Leaf (ResolvedTable ''t'')"
      and scope = None and n = "Leaf (ResolvedTable ''t'')" and c = False
      and t = "ResolvedTable ''t''", unfolded Let_def r]
  note f = resolveSubqueryExpressions_defers [where a = ?f and q = "Leaf (ResolvedTable ''t'')"
      and scope = None and n = "Leaf (ResolvedTable ''t'')" and c = False
      and t = "ResolvedTable ''t''", unfolded Let_def r]
  have 1: "resolveSubqueryExpressionsVisit ?d None (Leaf (ResolvedTable ''t'')) (Subquery (Leaf (ResolvedTable ''t'')) False)
     = Inr (Subquery (Leaf (ResolvedTable ''t'')) False, SameTree)"
    using d by simp
  have "\<exists>i. resolveSubqueryExpressions ?d (Unary Filter [Subquery (Leaf (ResolvedTable ''t'')) False] (Leaf (ResolvedTable ''t''))) None
     = Inr (Unary Filter [Subquery (Leaf (ResolvedTable ''t'')) False] (Leaf (ResolvedTable ''t'')), i)"
    using d by simp
  then have 2: "resolveSubqueryExpressions ?d (Unary Filter [Subquery (Leaf (ResolvedTable ''t'')) False] (Leaf (ResolvedTable ''t''))) None
     = Inr (Unary Filter [Subquery (Leaf (ResolvedTable ''t'')) False] (Leaf (ResolvedTable ''t'')), SameTree)"
    by (auto simp: resolveSubqueryExpressions_def nodesEqual_def split: sum.splits if_splits)
  have 3: "resolveSubqueryExpressionsVisit ?f None (Leaf (ResolvedTable ''t'')) (Subquery (Leaf (ResolvedTable ''t'')) False)
     = Inl (ErrOther ''cancelled'')"
    using f by simp
  have 4: "resolveSubqueryExpressions ?f (Unary Filter [Subquery (Leaf (ResolvedTable ''t'')) False] (Leaf (ResolvedTable ''t''))) None
     = Inl (ErrOther ''cancelled'')"
    using f by simp
  show ?thesis using 1 2 3 4 by blast
qed

text \<open>
  C5. At a deferred error \<^verbatim>\<open>resolveSubqueryExpressions\<close> is to return without error
  and keep the partially analysed plan of the subquery in place for a later pass, as
  the comment in its visitor says. It returns without error, but it does not always
  keep the plan: the visitor hands the subquery with the partially analysed plan to
  the traversal together with the change identity of the failed analysis, and when
  that is \<^verbatim>\<open>SameTree\<close> the traversal keeps the old expression. Here the analysis
  resolved the table of the subquery before it failed; the rule returns its input, in
  which the table is still unresolved.
\<close>

theorem resolveSubqueryExpressions_drops_partial_plan:
  "analyzeWithSelector partialAnalyzer (Leaf (UnresolvedTable ''u''))
       (newScope None
          (Unary Filter [Subquery (Leaf (UnresolvedTable ''u'')) False] (Leaf (ResolvedTable ''t''))))
       analyzeAll
     = \<lparr>analyzedNode = Leaf (ResolvedTable ''u''), sameTree = SameTree,
        analysisErr = Some (ErrColumnNotFound ''x'')\<rparr>
   \<and> resolveSubqueryExpressionsVisit partialAnalyzer None
       (Unary Filter [Subquery (Leaf (UnresolvedTable ''u'')) False] (Leaf (ResolvedTable ''t'')))
       (Subquery (Leaf (UnresolvedTable ''u'')) False)
     = Inr (Subquery (Leaf (ResolvedTable ''u'')) False, SameTree)
   \<and> resolveSubqueryExpressions partialAnalyzer
       (Unary Filter [Subquery (Leaf (UnresolvedTable ''u'')) False] (Leaf (ResolvedTable ''t'')))
       None
     = Inr (Unary Filter [Subquery (Leaf (UnresolvedTable ''u'')) False] (Leaf (ResolvedTable ''t'')),
            SameTree)"
proof -
  let ?m = "Unary Filter [Subquery (Leaf (UnresolvedTable ''u'')) False] (Leaf (ResolvedTable ''t''))"
  have r: "analyzeWithSelector partialAnalyzer (Leaf (UnresolvedTable ''u'')) sc analyzeAll
     = \<lparr>analyzedNode = Leaf (ResolvedTable ''u''), sameTree = SameTree,
        analysisErr = Some (ErrColumnNotFound ''x'')\<rparr>" for sc
    by (simp add: partialAnalyzer_def partialAnalysis_def)
  have v: "resolveSubqueryExpressionsVisit partialAnalyzer None n
       (Subquery (Leaf (UnresolvedTable ''u'')) False)
     = Inr (Subquery (Leaf (ResolvedTable ''u'')) False, SameTree)" for n
    by (simp add: Let_def r)
  have "resolveSubqueryExpressions partialAnalyzer ?m None = Inr (?m, SameTree)"
    by (simp add: resolveSubqueryExpressions_def NodesExprsWithNode_single Let_def r nodesEqual_def)
  with r v show ?thesis by blast
qed

text \<open>
  A tree whose root is a trigger begin/end block is returned as it is, with
  \<^verbatim>\<open>SameTree\<close>: the rule does not walk into it and marks no subquery in it.
\<close>

lemma cacheSubqueryResults_trigger_root:
  "cacheSubqueryResults nonDet width (Block TriggerBeginEndBlock cs) scope
     = Inr (Block TriggerBeginEndBlock cs, SameTree)"
  by (simp add: cacheSubqueryResults_def)

text \<open>
  C9. \<^verbatim>\<open>cacheSubqueryResults\<close> is never to mark a subquery expression inside a trigger
  block: its comment names that as a condition for caching to be safe. The rule tests
  only whether the root of the tree is a trigger begin/end block. A trigger block
  below the root, here the body of a \<^verbatim>\<open>CreateTrigger\<close> node, is walked like any other
  node, and the resolved subquery of the filter in it, which refers to no outer column,
  is marked as cacheable.
\<close>

theorem cacheSubqueryResults_marks_inside_nested_trigger_block:
  "cacheSubqueryResults (\<lambda>e. False) (\<lambda>n. 0)
     (Binary CreateTrigger [] (Leaf (ResolvedTable ''t''))
        (Block TriggerBeginEndBlock [Unary Filter [Subquery (Leaf (ResolvedTable ''u'')) False] (Leaf (ResolvedTable ''t''))]))
     None
   = Inr (Binary CreateTrigger [] (Leaf (ResolvedTable ''t''))
        (Block TriggerBeginEndBlock [Unary Filter [Subquery (Leaf (ResolvedTable ''u'')) True] (Leaf (ResolvedTable ''t''))]),
      NewTree)"
proof -
  have cacheable: "nodeIsCacheable (\<lambda>e. False) (Leaf (ResolvedTable ''u'')) w" for w
    by (simp add: nodeIsCacheable_inspectedExprs inspectedExprs.simps)
  have visit: "cacheSubqueryResultsVisit (\<lambda>e. False) (\<lambda>n. 0) None n
      (Subquery (Leaf (ResolvedTable ''u'')) False)
    = Inr (Subquery (Leaf (ResolvedTable ''u'')) True, NewTree)" for n
    by (simp add: cacheSubqueryResultsVisit_def cacheable)
  have filter: "OneNodeExprsWithNode
      (Unary Filter [Subquery (Leaf (ResolvedTable ''u'')) False] (Leaf (ResolvedTable ''t'')))
      (cacheSubqueryResultsVisit (\<lambda>e. False) (\<lambda>n. 0) None)
    = Inr (Unary Filter [Subquery (Leaf (ResolvedTable ''u'')) True] (Leaf (ResolvedTable ''t'')), NewTree)"
    by (simp add: OneNodeExprsWithNode_def ExprWithNode_childless visit)
  show ?thesis
    by (simp add: cacheSubqueryResults_def NodesExprsWithNode_def Nodes_Binary Nodes_Block
        Nodes_Unary Nodes_Leaf OneNodeExprsWithNode_other filter)
qed

section \<open>Properties of caching subquery aliases in joins\<close>

lemma isJoin_Some_Binary [simp]:
  "(isJoinNode (Some (Binary k es a b)) \<or> isIndexedJoin (Some (Binary k es a b))) = isJoinKind k"
  by (cases k) auto

lemma isJoin_other [simp]:
  "isJoinNode (Some (Leaf k')) = False" "isIndexedJoin (Some (Leaf k')) = False"
  "isJoinNode (Some (Unary u es c)) = False" "isIndexedJoin (Some (Unary u es c)) = False"
  "isJoinNode (Some (Block bk cs)) = False" "isIndexedJoin (Some (Block bk cs)) = False"
  "isJoinNode None = False" "isIndexedJoin None = False"
  by simp_all

lemma cacheAliasVisit_eq:
  "cacheAliasVisit \<lparr>Node = n, Parent = p, ChildNum = i\<rparr> =
     (if (isJoinNode p \<or> isIndexedJoin p) \<and> isSubqueryAlias n
      then Inr (NewCachedResults n, NewTree) else Inr (n, SameTree))"
  by (simp add: cacheAliasVisit_def)

lemma isSubqueryAlias_Unary_cong:
  "isSubqueryAlias (Unary k es c') = isSubqueryAlias (Unary k es c)"
  by (cases k) auto

lemma NodesWithCtxHelper_cacheAliasVisit:
  "\<exists>sm. NodesWithCtxHelper \<lparr>Node = n, Parent = p, ChildNum = i\<rparr> None cacheAliasVisit
          = Inr (cachedAliases (isJoinNode p \<or> isIndexedJoin p) n, sm)
        \<and> (sm = SameTree \<longrightarrow> cachedAliases (isJoinNode p \<or> isIndexedJoin p) n = n)"
proof (induction n arbitrary: p i rule: measure_induct_rule [where f = size])
  case (less n)
  have IH: "\<exists>sm. NodesWithCtxHelper \<lparr>Node = c, Parent = p', ChildNum = j\<rparr> None cacheAliasVisit
          = Inr (cachedAliases (isJoinNode p' \<or> isIndexedJoin p') c, sm)
        \<and> (sm = SameTree \<longrightarrow> cachedAliases (isJoinNode p' \<or> isIndexedJoin p') c = c)"
    if "c \<in> set (Children n)" for c p' j
    using less.IH [of c] that by (simp add: Children_size)
  show ?case
  proof (cases n)
    case (Leaf k)
    then show ?thesis by (simp add: NodesWithCtxHelper_Leaf cacheAliasVisit_eq)
  next
    case (Unary k es c)
    from IH [of c "Some (Unary k es c)" 0] Unary obtain sm where
      c: "NodesWithCtxHelper \<lparr>Node = c, Parent = Some (Unary k es c), ChildNum = 0\<rparr> None cacheAliasVisit
          = Inr (cachedAliases False c, sm)"
         "sm = SameTree \<longrightarrow> cachedAliases False c = c"
      by auto
    show ?thesis
      using c Unary isSubqueryAlias_Unary_cong [of k es "cachedAliases False c" c]
      by (cases sm)
         (auto simp: NodesWithCtxHelper_Unary selects_def cacheAliasVisit_eq NewCachedResults_def)
  next
    case (Binary k es a b)
    from IH [of a "Some (Binary k es a b)" 0] IH [of b "Some (Binary k es a b)" 1] Binary
    obtain sa sb where
      a: "NodesWithCtxHelper \<lparr>Node = a, Parent = Some (Binary k es a b), ChildNum = 0\<rparr> None cacheAliasVisit
          = Inr (cachedAliases (isJoinKind k) a, sa)"
         "sa = SameTree \<longrightarrow> cachedAliases (isJoinKind k) a = a" and
      b: "NodesWithCtxHelper \<lparr>Node = b, Parent = Some (Binary k es a b), ChildNum = 1\<rparr> None cacheAliasVisit
          = Inr (cachedAliases (isJoinKind k) b, sb)"
         "sb = SameTree \<longrightarrow> cachedAliases (isJoinKind k) b = b"
      by auto
    show ?thesis
      using a b Binary
      by (cases sa; cases sb)
         (auto simp: NodesWithCtxHelper_Binary selects_def cacheAliasVisit_eq)
  next
    case (Block k cs)
    let ?rs = "map (\<lambda>j. if selects None \<lparr>Node = cs ! j, Parent = Some (Block k cs), ChildNum = int j\<rparr>
                        then NodesWithCtxHelper
                               \<lparr>Node = cs ! j, Parent = Some (Block k cs), ChildNum = int j\<rparr>
                               None cacheAliasVisit
                        else Inr (cs ! j, SameTree)) [0..<length cs]"
    have "\<exists>S. splice cs ?rs = Inr (map (cachedAliases False) cs, S)
            \<and> (S = SameTree \<longrightarrow> map (cachedAliases False) cs = cs)"
    proof (rule splice_results)
      fix j assume j: "j < length cs"
      then have "cs ! j \<in> set (Children n)" using Block by simp
      from IH [OF this, of "Some (Block k cs)" "int j"] j
      show "\<exists>sm. ?rs ! j = Inr (map (cachedAliases False) cs ! j, sm)
              \<and> (sm = SameTree \<longrightarrow> map (cachedAliases False) cs ! j = cs ! j)"
        by (simp add: selects_def)
    qed simp_all
    then obtain S where "splice cs ?rs = Inr (map (cachedAliases False) cs, S)"
      "S = SameTree \<longrightarrow> map (cachedAliases False) cs = cs" by blast
    with Block show ?thesis
      by (cases S) (auto simp: NodesWithCtxHelper_Block cacheAliasVisit_eq)
  qed
qed

lemma primarySelector_eq:
  "primarySelector \<lparr>Node = c, Parent = Some (Binary k es a b), ChildNum = j\<rparr> =
     (if isJoinKind k then (if isRightJoin k then j = 1 else j = 0) else True)"
  "primarySelector \<lparr>Node = c, Parent = Some (Unary u es d), ChildNum = j\<rparr> = True"
  "primarySelector \<lparr>Node = c, Parent = Some (Block bk cs), ChildNum = j\<rparr> = True"
  "primarySelector \<lparr>Node = c, Parent = Some (Leaf lk), ChildNum = j\<rparr> = True"
  "primarySelector \<lparr>Node = c, Parent = None, ChildNum = j\<rparr> = True"
  by (cases k; auto simp: primarySelector_def)+

lemma uncacheVisit_eq:
  "uncacheVisit \<lparr>Node = n, Parent = p, ChildNum = i\<rparr> =
     (if isCachedResults n then Inr (UnaryNodeChild n, NewTree) else Inr (n, SameTree))"
  by (simp add: uncacheVisit_def)

lemma NodesWithCtxHelper_uncacheVisit:
  "\<exists>sm. NodesWithCtxHelper \<lparr>Node = n, Parent = p, ChildNum = i\<rparr> (Some primarySelector) uncacheVisit
          = Inr (primaryUncached n, sm)
        \<and> (sm = SameTree \<longrightarrow> primaryUncached n = n)"
proof (induction n arbitrary: p i rule: measure_induct_rule [where f = size])
  case (less n)
  have IH: "\<exists>sm. NodesWithCtxHelper \<lparr>Node = c, Parent = p', ChildNum = j\<rparr> (Some primarySelector)
              uncacheVisit = Inr (primaryUncached c, sm)
        \<and> (sm = SameTree \<longrightarrow> primaryUncached c = c)"
    if "c \<in> set (Children n)" for c p' j
    using less.IH [of c] that by (simp add: Children_size)
  show ?case
  proof (cases n)
    case (Leaf k)
    then show ?thesis by (simp add: NodesWithCtxHelper_Leaf uncacheVisit_eq)
  next
    case (Unary k es c)
    from IH [of c "Some (Unary k es c)" 0] Unary obtain sm where
      c: "NodesWithCtxHelper \<lparr>Node = c, Parent = Some (Unary k es c), ChildNum = 0\<rparr>
            (Some primarySelector) uncacheVisit = Inr (primaryUncached c, sm)"
         "sm = SameTree \<longrightarrow> primaryUncached c = c"
      by auto
    show ?thesis
      using c Unary
      by (cases sm; cases k)
         (auto simp: NodesWithCtxHelper_Unary selects_def primarySelector_eq uncacheVisit_eq)
  next
    case (Binary k es a b)
    from IH [of a "Some (Binary k es a b)" 0] IH [of b "Some (Binary k es a b)" 1] Binary
    obtain sa sb where
      a: "NodesWithCtxHelper \<lparr>Node = a, Parent = Some (Binary k es a b), ChildNum = 0\<rparr>
            (Some primarySelector) uncacheVisit = Inr (primaryUncached a, sa)"
         "sa = SameTree \<longrightarrow> primaryUncached a = a" and
      b: "NodesWithCtxHelper \<lparr>Node = b, Parent = Some (Binary k es a b), ChildNum = 1\<rparr>
            (Some primarySelector) uncacheVisit = Inr (primaryUncached b, sb)"
         "sb = SameTree \<longrightarrow> primaryUncached b = b"
      by auto
    show ?thesis
      using a b Binary
      by (cases sa; cases sb)
         (auto simp: NodesWithCtxHelper_Binary selects_def primarySelector_eq uncacheVisit_eq)
  next
    case (Block k cs)
    let ?rs = "map (\<lambda>j. if selects (Some primarySelector)
                             \<lparr>Node = cs ! j, Parent = Some (Block k cs), ChildNum = int j\<rparr>
                        then NodesWithCtxHelper
                               \<lparr>Node = cs ! j, Parent = Some (Block k cs), ChildNum = int j\<rparr>
                               (Some primarySelector) uncacheVisit
                        else Inr (cs ! j, SameTree)) [0..<length cs]"
    have "\<exists>S. splice cs ?rs = Inr (map primaryUncached cs, S)
            \<and> (S = SameTree \<longrightarrow> map primaryUncached cs = cs)"
    proof (rule splice_results)
      fix j assume j: "j < length cs"
      then have "cs ! j \<in> set (Children n)" using Block by simp
      from IH [OF this, of "Some (Block k cs)" "int j"] j
      show "\<exists>sm. ?rs ! j = Inr (map primaryUncached cs ! j, sm)
              \<and> (sm = SameTree \<longrightarrow> map primaryUncached cs ! j = cs ! j)"
        by (simp add: selects_def primarySelector_eq)
    qed simp_all
    then obtain S where "splice cs ?rs = Inr (map primaryUncached cs, S)"
      "S = SameTree \<longrightarrow> map primaryUncached cs = cs" by blast
    with Block show ?thesis
      by (cases S) (auto simp: NodesWithCtxHelper_Block uncacheVisit_eq)
  qed
qed

lemma isSubqueryAlias_cachedAliases:
  "isSubqueryAlias (cachedAliases underJoin n) \<longleftrightarrow> \<not> underJoin \<and> isSubqueryAlias n"
proof (cases n)
  case (Unary k es c)
  then show ?thesis by (cases k) (auto simp: NewCachedResults_def)
qed auto

lemma joinAliasesCached_cachedAliases: "joinAliasesCached (cachedAliases underJoin n)"
proof (induction n arbitrary: underJoin rule: measure_induct_rule [where f = size])
  case (less n)
  have IH: "joinAliasesCached (cachedAliases u c)" if "c \<in> set (Children n)" for c u
    using less.IH [of c] that by (simp add: Children_size)
  show ?case
  proof (cases n)
    case (Unary k es c)
    with IH [of c] show ?thesis by (auto simp: NewCachedResults_def)
  next
    case (Binary k es a b)
    with IH [of a] IH [of b] show ?thesis by (auto simp: isSubqueryAlias_cachedAliases)
  next
    case (Block k cs)
    with IH show ?thesis by auto
  qed auto
qed

lemma primaryOperand_primaryUncached: "\<not> isCachedResults (primaryOperand (primaryUncached n))"
proof (induction n rule: measure_induct_rule [where f = size])
  case (less n)
  have IH: "\<not> isCachedResults (primaryOperand (primaryUncached c))" if "c \<in> set (Children n)" for c
    using less.IH [of c] that by (simp add: Children_size)
  show ?case
  proof (cases n)
    case (Unary k es c)
    with IH [of c] show ?thesis by (cases k) auto
  next
    case (Binary k es a b)
    with IH [of a] IH [of b] show ?thesis by auto
  qed auto
qed

lemma offPrimaryCached_primaryUncached:
  "joinAliasesCached n \<Longrightarrow> offPrimaryCached (primaryUncached n)"
proof (induction n rule: measure_induct_rule [where f = size])
  case (less n)
  have IH: "offPrimaryCached (primaryUncached c)"
    if "c \<in> set (Children n)" "joinAliasesCached c" for c
    using less.IH [of c] that by (simp add: Children_size)
  show ?case
  proof (cases n)
    case (Unary k es c)
    with IH [of c] less.prems show ?thesis by (cases k) auto
  next
    case (Binary k es a b)
    with IH [of a] IH [of b] less.prems show ?thesis by auto
  next
    case (Block k cs)
    with IH less.prems show ?thesis by auto
  qed auto
qed

text \<open>
  C3, as amended. \<^verbatim>\<open>cacheSubqueryAlisesInJoins\<close> never fails, and when it reports
  \<^verbatim>\<open>SameTree\<close> its result is its input. Given a scope, it returns the tree in which
  every subquery alias that is a direct child of a join or an indexed join is wrapped
  in \<^verbatim>\<open>CachedResults\<close>, and removes nothing. Given no scope, it then walks from the
  root into every child of a node that is not a join and into the primary operand only
  of a join (child 1 of a right join, child 0 of every other join and of an indexed
  join) and removes every \<^verbatim>\<open>CachedResults\<close> node it visits: the primary operand that
  this walk arrives at is left without the decorator, and the other operand of every
  join on the walk is left as the wrapping made it, a subquery alias there wrapped.
\<close>

theorem cacheSubqueryAlisesInJoins_result:
  "\<exists>r i. cacheSubqueryAlisesInJoins n scope = Inr (r, i)
     \<and> (i = SameTree \<longrightarrow> r = n)
     \<and> (scope \<noteq> None \<longrightarrow> r = cachedAliases False n \<and> joinAliasesCached r)
     \<and> (scope = None \<longrightarrow>
          r = primaryUncached (cachedAliases False n)
          \<and> \<not> isCachedResults (primaryOperand r)
          \<and> offPrimaryCached r)"
proof -
  obtain sa where a: "NodesWithCtx n None cacheAliasVisit = Inr (cachedAliases False n, sa)"
    and a': "sa = SameTree \<longrightarrow> cachedAliases False n = n"
    using NodesWithCtxHelper_cacheAliasVisit [of n None "- 1"]
    by (auto simp: NodesWithCtx_def)
  obtain sd where d: "NodesWithCtx (cachedAliases False n) (Some primarySelector) uncacheVisit
      = Inr (primaryUncached (cachedAliases False n), sd)"
    and d': "sd = SameTree \<longrightarrow> primaryUncached (cachedAliases False n) = cachedAliases False n"
    using NodesWithCtxHelper_uncacheVisit [of "cachedAliases False n" None "- 1"]
    by (auto simp: NodesWithCtx_def)
  have cached: "joinAliasesCached (cachedAliases False n)"
    by (rule joinAliasesCached_cachedAliases)
  show ?thesis
  proof (cases scope)
    case None
    then have "cacheSubqueryAlisesInJoins n scope
        = Inr (primaryUncached (cachedAliases False n), andTree sa sd)"
      by (simp add: cacheSubqueryAlisesInJoins_def a d)
    moreover have "andTree sa sd = SameTree \<longrightarrow> primaryUncached (cachedAliases False n) = n"
    proof
      assume "andTree sa sd = SameTree"
      then have "sa = SameTree" "sd = SameTree" by simp_all
      with a' d' have "cachedAliases False n = n"
        "primaryUncached (cachedAliases False n) = cachedAliases False n" by blast+
      then show "primaryUncached (cachedAliases False n) = n" by simp
    qed
    ultimately show ?thesis
      using None primaryOperand_primaryUncached offPrimaryCached_primaryUncached [OF cached]
      by simp
  next
    case (Some sc)
    then have "cacheSubqueryAlisesInJoins n scope = Inr (cachedAliases False n, sa)"
      by (simp add: cacheSubqueryAlisesInJoins_def a)
    then show ?thesis using Some a' cached by simp
  qed
qed

text \<open>
  \<^verbatim>\<open>SELECT * FROM (SELECT 1) AS s1 (Binary (JoinNode JoinTypeInner 0) []
              (Unary (SubqueryAlias ''s1'' []) [] (Unary Project [Literal 1] (Leaf (ResolvedTable ''dual''))))
              (Unary (SubqueryAlias ''s2'' []) [] (Unary Project [Literal 2] (Leaf (ResolvedTable ''dual''))))) (SELECT 2) AS s2\<close>: inside a subquery both
  aliases are wrapped; at the top level \<open>s1\<close>, the primary operand, is left bare and
  \<open>s2\<close> stays wrapped.
\<close>

theorem cacheSubqueryAlisesInJoins_result_witness:
  "Some (Scope None (Leaf (ResolvedTable ''o''))) \<noteq> None
   \<and> (\<exists>i. cacheSubqueryAlisesInJoins
          (Unary Project [GetField 0]
            (Binary (JoinNode JoinTypeInner 0) []
              (Unary (SubqueryAlias ''s1'' []) [] (Unary Project [Literal 1] (Leaf (ResolvedTable ''dual''))))
              (Unary (SubqueryAlias ''s2'' []) [] (Unary Project [Literal 2] (Leaf (ResolvedTable ''dual''))))))
          (Some (Scope None (Leaf (ResolvedTable ''o''))))
        = Inr (Unary Project [GetField 0]
            (Binary (JoinNode JoinTypeInner 0) []
              (Unary CachedResults []
                (Unary (SubqueryAlias ''s1'' []) [] (Unary Project [Literal 1] (Leaf (ResolvedTable ''dual'')))))
              (Unary CachedResults []
                (Unary (SubqueryAlias ''s2'' []) [] (Unary Project [Literal 2] (Leaf (ResolvedTable ''dual'')))))),
            i))
   \<and> (\<exists>i. cacheSubqueryAlisesInJoins
          (Unary Project [GetField 0]
            (Binary (JoinNode JoinTypeInner 0) []
              (Unary (SubqueryAlias ''s1'' []) [] (Unary Project [Literal 1] (Leaf (ResolvedTable ''dual''))))
              (Unary (SubqueryAlias ''s2'' []) [] (Unary Project [Literal 2] (Leaf (ResolvedTable ''dual''))))))
          None
        = Inr (Unary Project [GetField 0]
            (Binary (JoinNode JoinTypeInner 0) []
              (Unary (SubqueryAlias ''s1'' []) [] (Unary Project [Literal 1] (Leaf (ResolvedTable ''dual''))))
              (Unary CachedResults []
                (Unary (SubqueryAlias ''s2'' []) [] (Unary Project [Literal 2] (Leaf (ResolvedTable ''dual'')))))),
            i))"
proof -
  let ?n = "Unary Project [GetField 0]
            (Binary (JoinNode JoinTypeInner 0) []
              (Unary (SubqueryAlias ''s1'' []) [] (Unary Project [Literal 1] (Leaf (ResolvedTable ''dual''))))
              (Unary (SubqueryAlias ''s2'' []) [] (Unary Project [Literal 2] (Leaf (ResolvedTable ''dual'')))))"
  let ?sc = "Some (Scope None (Leaf (ResolvedTable ''o'')))"
  have ne: "?sc \<noteq> None" by simp
  obtain r i where r: "cacheSubqueryAlisesInJoins ?n ?sc = Inr (r, i)"
    and r': "?sc \<noteq> None \<longrightarrow> r = cachedAliases False ?n \<and> joinAliasesCached r"
    using cacheSubqueryAlisesInJoins_result [of ?n ?sc] by (elim exE conjE)
  from r' ne have "r = cachedAliases False ?n" by (elim impE conjE)
  with r have inner: "\<exists>i. cacheSubqueryAlisesInJoins ?n ?sc = Inr (cachedAliases False ?n, i)"
    by (intro exI [of _ i]) (simp only:)
  obtain r0 i0 where t: "cacheSubqueryAlisesInJoins ?n None = Inr (r0, i0)"
    and t': "None = (None :: Scope option) \<longrightarrow>
          r0 = primaryUncached (cachedAliases False ?n)
          \<and> \<not> isCachedResults (primaryOperand r0) \<and> offPrimaryCached r0"
    using cacheSubqueryAlisesInJoins_result [of ?n None] by (elim exE conjE)
  from t' have "r0 = primaryUncached (cachedAliases False ?n)" by (elim impE conjE) (rule refl)
  with t have top: "\<exists>i. cacheSubqueryAlisesInJoins ?n None
      = Inr (primaryUncached (cachedAliases False ?n), i)"
    by (intro exI [of _ i0]) (simp only:)
  show ?thesis
    using ne inner top by (simp add: NewCachedResults_def)
qed

text \<open>
  C3 as stated fails: with no scope the rule removes more than the decorator of the
  primary operand of one outermost join. In a block of two statements the first
  operand of the join of each statement is left bare, and a \<^verbatim>\<open>CachedResults\<close> node
  that was never the operand of a join, here the child of a projection, is removed
  as well.
\<close>

theorem cacheSubqueryAlisesInJoins_uncaches_more:
  "cacheSubqueryAlisesInJoins
     (Block BeginEndBlock
        [Binary (JoinNode JoinTypeInner 0) []
           (Unary (SubqueryAlias ''a'' []) [] (Leaf (ResolvedTable ''t'')))
           (Unary (SubqueryAlias ''b'' []) [] (Leaf (ResolvedTable ''t''))),
         Binary (JoinNode JoinTypeInner 0) []
           (Unary (SubqueryAlias ''c'' []) [] (Leaf (ResolvedTable ''t'')))
           (Unary (SubqueryAlias ''d'' []) [] (Leaf (ResolvedTable ''t'')))])
     None
   = Inr (Block BeginEndBlock
        [Binary (JoinNode JoinTypeInner 0) []
           (Unary (SubqueryAlias ''a'' []) [] (Leaf (ResolvedTable ''t'')))
           (Unary CachedResults [] (Unary (SubqueryAlias ''b'' []) [] (Leaf (ResolvedTable ''t'')))),
         Binary (JoinNode JoinTypeInner 0) []
           (Unary (SubqueryAlias ''c'' []) [] (Leaf (ResolvedTable ''t'')))
           (Unary CachedResults [] (Unary (SubqueryAlias ''d'' []) [] (Leaf (ResolvedTable ''t''))))],
      NewTree)
   \<and> cacheSubqueryAlisesInJoins
       (Unary Project [GetField 0] (Unary CachedResults [] (Leaf (ResolvedTable ''t''))))
       None
     = Inr (Unary Project [GetField 0] (Leaf (ResolvedTable ''t'')), NewTree)"
proof -
  have two: "[0..<2] = [0, Suc 0]" by (rule upt_2)
  have block: "cacheSubqueryAlisesInJoins
     (Block BeginEndBlock
        [Binary (JoinNode JoinTypeInner 0) []
           (Unary (SubqueryAlias ''a'' []) [] (Leaf (ResolvedTable ''t'')))
           (Unary (SubqueryAlias ''b'' []) [] (Leaf (ResolvedTable ''t''))),
         Binary (JoinNode JoinTypeInner 0) []
           (Unary (SubqueryAlias ''c'' []) [] (Leaf (ResolvedTable ''t'')))
           (Unary (SubqueryAlias ''d'' []) [] (Leaf (ResolvedTable ''t'')))])
     None
   = Inr (Block BeginEndBlock
        [Binary (JoinNode JoinTypeInner 0) []
           (Unary (SubqueryAlias ''a'' []) [] (Leaf (ResolvedTable ''t'')))
           (Unary CachedResults [] (Unary (SubqueryAlias ''b'' []) [] (Leaf (ResolvedTable ''t'')))),
         Binary (JoinNode JoinTypeInner 0) []
           (Unary (SubqueryAlias ''c'' []) [] (Leaf (ResolvedTable ''t'')))
           (Unary CachedResults [] (Unary (SubqueryAlias ''d'' []) [] (Leaf (ResolvedTable ''t''))))],
      NewTree)"
    by (simp add: cacheSubqueryAlisesInJoins_def NodesWithCtx_def NodesWithCtxHelper_Block
        NodesWithCtxHelper_Binary NodesWithCtxHelper_Unary NodesWithCtxHelper_Leaf two
        selects_def cacheAliasVisit_eq uncacheVisit_eq primarySelector_eq NewCachedResults_def)
  have deco: "cacheSubqueryAlisesInJoins
       (Unary Project [GetField 0] (Unary CachedResults [] (Leaf (ResolvedTable ''t''))))
       None
     = Inr (Unary Project [GetField 0] (Leaf (ResolvedTable ''t'')), NewTree)"
    by (simp add: cacheSubqueryAlisesInJoins_def NodesWithCtx_def
        NodesWithCtxHelper_Unary NodesWithCtxHelper_Leaf
        selects_def cacheAliasVisit_eq uncacheVisit_eq primarySelector_eq)
  show ?thesis using block deco by blast
qed

section \<open>Properties of join scope propagation\<close>

lemma isStripRowNode_wrappedJoins [simp]: "isStripRowNode (wrappedJoins w n) = isStripRowNode n"
proof (cases n)
  case (Unary k es c)
  then show ?thesis by (cases k) auto
next
  case (Binary k es a b)
  then show ?thesis by (cases k) auto
qed auto

lemma not_strip_neq: "\<not> isStripRowNode a \<Longrightarrow> NewStripRowNode x w \<noteq> a"
  by (cases a) (auto simp: NewStripRowNode_def)

lemma Nodes_setJoinScopeLenVisit:
  "strippedJoinsAnnotated w n \<Longrightarrow>
   \<exists>sm. Nodes n (setJoinScopeLenVisit w) = Inr (wrappedJoins w n, sm)
        \<and> (sm = SameTree \<longleftrightarrow> wrappedJoins w n = n)"
proof (induction n rule: measure_induct_rule [where f = size])
  case (less n)
  have IH: "\<exists>sm. Nodes c (setJoinScopeLenVisit w) = Inr (wrappedJoins w c, sm)
        \<and> (sm = SameTree \<longleftrightarrow> wrappedJoins w c = c)"
    if "c \<in> set (Children n)" "strippedJoinsAnnotated w c" for c
    using less.IH [of c] that by (simp add: Children_size)
  show ?case
  proof (cases n)
    case (Leaf k)
    then show ?thesis by (simp add: Nodes_Leaf)
  next
    case (Unary k es c)
    with IH [of c] less.prems obtain sm where
      "Nodes c (setJoinScopeLenVisit w) = Inr (wrappedJoins w c, sm)"
      "sm = SameTree \<longleftrightarrow> wrappedJoins w c = c" by auto
    with Unary show ?thesis by (cases sm) (auto simp: Nodes_Unary)
  next
    case (Binary k es a b)
    have sub: "strippedJoinsAnnotated w a" "strippedJoinsAnnotated w b"
      using less.prems Binary by (cases k; simp)+
    with IH [of a] IH [of b] Binary obtain sa sb where
      a: "Nodes a (setJoinScopeLenVisit w) = Inr (wrappedJoins w a, sa)"
         "sa = SameTree \<longleftrightarrow> wrappedJoins w a = a" and
      b: "Nodes b (setJoinScopeLenVisit w) = Inr (wrappedJoins w b, sb)"
         "sb = SameTree \<longleftrightarrow> wrappedJoins w b = b"
      by auto
    show ?thesis
    proof (cases k)
      case (JoinNode t l)
      show ?thesis
      proof (cases "isStripRowNode a")
        case True
        with less.prems Binary JoinNode have "l = w" by simp
        with True a b Binary JoinNode show ?thesis
          by (cases sa; cases sb) (auto simp: Nodes_Binary)
      next
        case False
        have ne: "NewStripRowNode x w \<noteq> a" for x using False by (rule not_strip_neq)
        from False a b Binary JoinNode show ?thesis
          by (cases sa; cases sb) (auto simp: Nodes_Binary ne)
      qed
    qed (use a b Binary in \<open>cases sa; cases sb; auto simp: Nodes_Binary\<close>)+
  next
    case (Block k cs)
    have "\<exists>S. splice cs (map (\<lambda>c. Nodes c (setJoinScopeLenVisit w)) cs)
              = Inr (map (wrappedJoins w) cs, S) \<and> (S = SameTree \<longleftrightarrow> map (wrappedJoins w) cs = cs)"
      by (rule splice_map) (use IH less.prems Block in auto)
    then obtain S where "splice cs (map (\<lambda>c. Nodes c (setJoinScopeLenVisit w)) cs)
              = Inr (map (wrappedJoins w) cs, S)" "S = SameTree \<longleftrightarrow> map (wrappedJoins w) cs = cs"
      by blast
    with Block show ?thesis by (cases S) (auto simp: Nodes_Block)
  qed
qed

lemma joinsWrapped_wrappedJoins: "joinsWrapped w (wrappedJoins w n)"
  by (induction w n rule: wrappedJoins.induct) (auto simp: NewStripRowNode_def)

text \<open>
  C7, as amended. When the scope's schema is empty, \<^verbatim>\<open>setJoinScopeLen\<close> returns its
  input with \<^verbatim>\<open>SameTree\<close>. When it has \<open>w > 0\<close> columns, and every join whose left
  operand is already a \<^verbatim>\<open>StripRowNode\<close> has the scope length \<open>w\<close> already, the rule
  succeeds with the tree in which every join has the scope length \<open>w\<close> and both
  operands of every join whose left operand was not a \<^verbatim>\<open>StripRowNode\<close> are wrapped
  in one of \<open>w\<close> columns; it reports \<^verbatim>\<open>SameTree\<close> exactly when that tree is the
  input. Only the left operand is examined.
\<close>

theorem setJoinScopeLen_wraps_joins:
  "(SchemaLen width scope = 0 \<longrightarrow> setJoinScopeLen width n scope = Inr (n, SameTree))
   \<and> (SchemaLen width scope \<noteq> 0 \<and> strippedJoinsAnnotated (SchemaLen width scope) n \<longrightarrow>
        (\<exists>sm. setJoinScopeLen width n scope = Inr (wrappedJoins (SchemaLen width scope) n, sm)
              \<and> (sm = SameTree \<longleftrightarrow> wrappedJoins (SchemaLen width scope) n = n))
        \<and> joinsWrapped (SchemaLen width scope) (wrappedJoins (SchemaLen width scope) n))"
proof (intro conjI impI)
  assume "SchemaLen width scope = 0"
  then show "setJoinScopeLen width n scope = Inr (n, SameTree)"
    by (simp add: setJoinScopeLen_def)
next
  assume h: "SchemaLen width scope \<noteq> 0 \<and> strippedJoinsAnnotated (SchemaLen width scope) n"
  then have "setJoinScopeLen width n scope = Nodes n (setJoinScopeLenVisit (SchemaLen width scope))"
    by (simp add: setJoinScopeLen_def Let_def)
  with Nodes_setJoinScopeLenVisit [of "SchemaLen width scope" n] h
  show "\<exists>sm. setJoinScopeLen width n scope = Inr (wrappedJoins (SchemaLen width scope) n, sm)
              \<and> (sm = SameTree \<longleftrightarrow> wrappedJoins (SchemaLen width scope) n = n)"
    by simp
next
  show "joinsWrapped (SchemaLen width scope) (wrappedJoins (SchemaLen width scope) n)"
    by (rule joinsWrapped_wrappedJoins)
qed

text \<open>
  Under an outer scope of two columns, a projection over a fresh join of two tables:
  the join gets the scope length 2 and both tables are wrapped. With no scope the tree
  is returned as it is.
\<close>

theorem setJoinScopeLen_wraps_joins_witness:
  "SchemaLen (\<lambda>n. 2) None = 0
   \<and> setJoinScopeLen (\<lambda>n. 2)
        (Unary Project [GetField 0]
          (Binary (JoinNode JoinTypeInner 0) [Literal 1]
            (Leaf (ResolvedTable ''a'')) (Leaf (ResolvedTable ''b'')))) None
      = Inr (Unary Project [GetField 0]
          (Binary (JoinNode JoinTypeInner 0) [Literal 1]
            (Leaf (ResolvedTable ''a'')) (Leaf (ResolvedTable ''b''))), SameTree)
   \<and> SchemaLen (\<lambda>n. 2) (Some (Scope None (Leaf (ResolvedTable ''o'')))) \<noteq> 0
   \<and> strippedJoinsAnnotated 2
        (Unary Project [GetField 0]
          (Binary (JoinNode JoinTypeInner 0) [Literal 1]
            (Leaf (ResolvedTable ''a'')) (Leaf (ResolvedTable ''b''))))
   \<and> setJoinScopeLen (\<lambda>n. 2)
        (Unary Project [GetField 0]
          (Binary (JoinNode JoinTypeInner 0) [Literal 1]
            (Leaf (ResolvedTable ''a'')) (Leaf (ResolvedTable ''b''))))
        (Some (Scope None (Leaf (ResolvedTable ''o''))))
      = Inr (Unary Project [GetField 0]
          (Binary (JoinNode JoinTypeInner 2) [Literal 1]
            (Unary (StripRowNode 2) [] (Leaf (ResolvedTable ''a'')))
            (Unary (StripRowNode 2) [] (Leaf (ResolvedTable ''b'')))), NewTree)"
proof -
  let ?n = "Unary Project [GetField 0]
          (Binary (JoinNode JoinTypeInner 0) [Literal 1]
            (Leaf (ResolvedTable ''a'')) (Leaf (ResolvedTable ''b'')))"
  let ?sc = "Some (Scope None (Leaf (ResolvedTable ''o'')))"
  have w0: "SchemaLen (\<lambda>n. 2) None = 0"
    by (simp add: SchemaLen_def)
  have w2: "SchemaLen (\<lambda>n. 2) ?sc = 2"
    by (simp add: SchemaLen_def)
  have fresh: "strippedJoinsAnnotated 2 ?n"
    by simp
  have a: "setJoinScopeLen (\<lambda>n. 2) ?n None = Inr (?n, SameTree)"
    using setJoinScopeLen_wraps_joins [of "\<lambda>n. 2" None ?n, THEN conjunct1] w0 by simp
  from setJoinScopeLen_wraps_joins [of "\<lambda>n. 2" ?sc ?n, THEN conjunct2] fresh
  obtain sm where b: "setJoinScopeLen (\<lambda>n. 2) ?n ?sc = Inr (wrappedJoins 2 ?n, sm)"
    and c: "sm = SameTree \<longleftrightarrow> wrappedJoins 2 ?n = ?n"
    unfolding w2 by auto
  have "sm = NewTree"
    using c by (cases sm) (simp_all add: NewStripRowNode_def)
  with b have "setJoinScopeLen (\<lambda>n. 2) ?n ?sc
      = Inr (Unary Project [GetField 0]
          (Binary (JoinNode JoinTypeInner 2) [Literal 1]
            (Unary (StripRowNode 2) [] (Leaf (ResolvedTable ''a'')))
            (Unary (StripRowNode 2) [] (Leaf (ResolvedTable ''b'')))), NewTree)"
    by (simp add: NewStripRowNode_def)
  with w0 w2 fresh a show ?thesis by simp
qed

text \<open>
  C7 as stated fails: under an outer scope of two columns, a join whose right operand is
  already a \<^verbatim>\<open>StripRowNode\<close> and whose left operand is not has its right operand
  wrapped a second time.
\<close>

theorem setJoinScopeLen_wraps_stripped_operand_again:
  "setJoinScopeLen (\<lambda>n. 2)
     (Binary (JoinNode JoinTypeInner 0) []
        (Leaf (ResolvedTable ''a''))
        (Unary (StripRowNode 2) [] (Leaf (ResolvedTable ''b''))))
     (Some (Scope None (Leaf (ResolvedTable ''o''))))
   = Inr (Binary (JoinNode JoinTypeInner 2) []
            (Unary (StripRowNode 2) [] (Leaf (ResolvedTable ''a'')))
            (Unary (StripRowNode 2) [] (Unary (StripRowNode 2) [] (Leaf (ResolvedTable ''b'')))),
          NewTree)"
  by (simp add: setJoinScopeLen_def SchemaLen_def Nodes_Binary Nodes_Unary Nodes_Leaf
      NewStripRowNode_def)

text \<open>
  C1. A rule that returns \<^verbatim>\<open>SameTree\<close> is to return its input. \<^verbatim>\<open>setJoinScopeLen\<close>
  does not: for a join that was wrapped under an outer scope of one column and is
  analysed again under an outer scope of two columns, it returns the join with the new
  scope length, a tree that differs from its input, together with \<^verbatim>\<open>SameTree\<close>.
\<close>

theorem setJoinScopeLen_SameTree_with_changed_tree:
  "setJoinScopeLen (\<lambda>n. 2)
     (Binary (JoinNode JoinTypeInner 1) []
        (Unary (StripRowNode 1) [] (Leaf (ResolvedTable ''a'')))
        (Unary (StripRowNode 1) [] (Leaf (ResolvedTable ''b''))))
     (Some (Scope None (Leaf (ResolvedTable ''o''))))
   = Inr (Binary (JoinNode JoinTypeInner 2) []
            (Unary (StripRowNode 1) [] (Leaf (ResolvedTable ''a'')))
            (Unary (StripRowNode 1) [] (Leaf (ResolvedTable ''b''))),
          SameTree)
   \<and> Binary (JoinNode JoinTypeInner 2) []
            (Unary (StripRowNode 1) [] (Leaf (ResolvedTable ''a'')))
            (Unary (StripRowNode 1) [] (Leaf (ResolvedTable ''b'')))
     \<noteq> Binary (JoinNode JoinTypeInner 1) []
        (Unary (StripRowNode 1) [] (Leaf (ResolvedTable ''a'')))
        (Unary (StripRowNode 1) [] (Leaf (ResolvedTable ''b'')))"
  by (simp add: setJoinScopeLen_def SchemaLen_def Nodes_Binary Nodes_Unary Nodes_Leaf)

text \<open>
  \<^verbatim>\<open>resolveSubqueryExpressions\<close>, which C1 names too, keeps the invariant: it
  compares the rewritten tree with its input before it reports \<^verbatim>\<open>SameTree\<close>.
\<close>

lemma resolveSubqueryExpressions_SameTree:
  "resolveSubqueryExpressions a n scope = Inr (n', SameTree) \<Longrightarrow> n' = n"
  by (auto simp: resolveSubqueryExpressions_def nodesEqual_def split: sum.splits if_splits)

section \<open>Properties of the trigger creation iterator\<close>

lemma Next_once_set: "once (fst (snd (Next c w)))"
  by (simp add: Next_def Let_def split: option.splits prod.splits)

lemma Next_after_once: "once c \<Longrightarrow> Next c w = (Inl EOF, c, w)"
  by (simp add: Next_def)

lemma NextTimes_after_once:
  "once c \<Longrightarrow> NextTimes k c w = (replicate k (Inl EOF), c, w)"
  by (induction k) (simp_all add: Next_after_once)

text \<open>
  C10. The first \<^verbatim>\<open>Next\<close> of a trigger-creation iterator returns one OK-result row
  after the database created the trigger, or \<^verbatim>\<open>ErrTriggersNotSupported\<close> when the
  database is not a trigger database, or the error of the database's
  \<^verbatim>\<open>CreateTrigger\<close>. Every later call returns \<^verbatim>\<open>io.EOF\<close> and leaves the database
  as the first call left it, so creation is attempted at most once.
\<close>

theorem createTriggerIter_Next_once:
  assumes fresh: "\<not> once c"
  shows "(case triggerDatabase (db c) of
            None \<Rightarrow>
              Next c w = (Inl (ErrTriggersNotSupported (dbName (db c))), c\<lparr>once := True\<rparr>, w)
          | Some create \<Rightarrow>
              (case create (triggerDefinition c) w of
                 (None, w') \<Rightarrow> Next c w = (Inr [OkResult 0], c\<lparr>once := True\<rparr>, w')
               | (Some err, w') \<Rightarrow> Next c w = (Inl err, c\<lparr>once := True\<rparr>, w')))
         \<and> NextTimes (Suc k) c w =
             (fst (Next c w) # replicate k (Inl EOF), snd (Next c w))"
proof -
  have a: "case triggerDatabase (db c) of
            None \<Rightarrow>
              Next c w = (Inl (ErrTriggersNotSupported (dbName (db c))), c\<lparr>once := True\<rparr>, w)
          | Some create \<Rightarrow>
              (case create (triggerDefinition c) w of
                 (None, w') \<Rightarrow> Next c w = (Inr [OkResult 0], c\<lparr>once := True\<rparr>, w')
               | (Some err, w') \<Rightarrow> Next c w = (Inl err, c\<lparr>once := True\<rparr>, w'))"
    using fresh by (simp add: Next_def Let_def split: option.splits prod.splits)
  obtain r c' w' where n: "Next c w = (r, c', w')"
    by (cases "Next c w") auto
  have "once c'"
    using Next_once_set [of c w] n by simp
  then have "NextTimes k c' w' = (replicate k (Inl EOF), c', w')"
    by (rule NextTimes_after_once)
  then have b: "NextTimes (Suc k) c w = (fst (Next c w) # replicate k (Inl EOF), snd (Next c w))"
    using n by simp
  show ?thesis using a b by simp
qed

text \<open>
  A database that counts the triggers it was asked to create: three calls of
  \<^verbatim>\<open>Next\<close> on a fresh iterator return the OK row, then \<^verbatim>\<open>io.EOF\<close> twice, and the
  database was asked once.
\<close>

theorem createTriggerIter_Next_once_witness:
  "\<not> once (RowIter ''trg'' ''CREATE TRIGGER trg'' 0
              (Database ''mydb'' (Some (\<lambda>d (n::nat). (None, Suc n)))))
   \<and> NextTimes 3 (RowIter ''trg'' ''CREATE TRIGGER trg'' 0
              (Database ''mydb'' (Some (\<lambda>d (n::nat). (None, Suc n))))) (0::nat)
     = ([Inr [OkResult 0], Inl EOF, Inl EOF],
        (RowIter ''trg'' ''CREATE TRIGGER trg'' 0
              (Database ''mydb'' (Some (\<lambda>d (n::nat). (None, Suc n)))))\<lparr>once := True\<rparr>, 1)"
proof -
  let ?c = "RowIter ''trg'' ''CREATE TRIGGER trg'' 0
              (Database ''mydb'' (Some (\<lambda>d (n::nat). (None, Suc n))))"
  have f: "\<not> once ?c" by (simp add: RowIter_def)
  note inst = createTriggerIter_Next_once [OF f, of "0::nat" 2]
  have A: "Next ?c 0 = (Inr [OkResult 0], ?c\<lparr>once := True\<rparr>, 1)"
    using inst [THEN conjunct1] by (simp add: RowIter_def)
  have B: "NextTimes (Suc 2) ?c 0 = (fst (Next ?c 0) # replicate 2 (Inl EOF), snd (Next ?c 0))"
    using inst [THEN conjunct2] .
  have three: "(3::nat) = Suc 2" by simp
  have "NextTimes 3 ?c 0 = ([Inr [OkResult 0], Inl EOF, Inl EOF], ?c\<lparr>once := True\<rparr>, 1)"
    unfolding three B A by (simp add: numeral_2_eq_2)
  with f show ?thesis by blast
qed

end
